theory Spec2Isabelle
  imports Main "HOL-Library.Multiset"
begin

section \<open>Persistence schema (shared/schema.ts)\<close>

text \<open>
  Every table of the schema has a \<open>varchar\<close> primary key filled by
  \<open>gen_random_uuid()\<close>; the model writes these opaque identifiers as numbers.
  Timestamps are readings of a clock. The timestamp columns of conversations and
  messages are nullable in the schema, but every row the storage layer writes gets
  them from \<open>defaultNow()\<close> or \<open>new Date()\<close>, so they are modelled as always present.
  Other nullable columns are options, \<open>None\<close> being SQL \<open>NULL\<close>.
\<close>

type_synonym ident = nat
type_synonym timestamp = nat

record user =
  u_id :: ident
  email :: "string option"
  firstName :: "string option"
  lastName :: "string option"
  profileImageUrl :: "string option"
  isOnline :: "bool option"
  lastSeen :: "timestamp option"
  u_createdAt :: "timestamp option"
  u_updatedAt :: "timestamp option"

record conversation =
  c_id :: ident
  c_name :: "string option"
  isGroup :: "bool option"
  c_createdAt :: timestamp
  c_updatedAt :: timestamp

record conversationMember =
  cm_id :: ident
  cm_conversationId :: ident
  cm_userId :: ident
  joinedAt :: timestamp

record message =
  m_id :: ident
  m_conversationId :: ident
  senderId :: ident
  content :: string
  messageType :: "string option"
  isEdited :: "bool option"
  m_createdAt :: timestamp
  m_updatedAt :: timestamp

record messageReadReceipt =
  r_id :: ident
  r_messageId :: ident
  r_userId :: ident
  readAt :: timestamp

text \<open>The database: one list of rows per table, in insertion order.\<close>

record store =
  users :: "user list"
  conversations :: "conversation list"
  conversationMembers :: "conversationMember list"
  messages :: "message list"
  messageReadReceipts :: "messageReadReceipt list"

text \<open>
  The constraints the schema declares: each \<open>id\<close> column is a primary key, and each
  \<open>references(...)\<close> column is a foreign key. The schema declares no other unique
  constraint; in particular none on (conversationId, userId) of conversation_members
  and none on (messageId, userId) of message_read_receipts.
\<close>

definition primary_keys :: "store \<Rightarrow> bool" where
  "primary_keys s \<longleftrightarrow>
     distinct (map u_id (users s)) \<and>
     distinct (map c_id (conversations s)) \<and>
     distinct (map cm_id (conversationMembers s)) \<and>
     distinct (map m_id (messages s)) \<and>
     distinct (map r_id (messageReadReceipts s))"

definition foreign_keys :: "store \<Rightarrow> bool" where
  "foreign_keys s \<longleftrightarrow>
     list_all (\<lambda>cm. cm_conversationId cm \<in> set (map c_id (conversations s)) \<and>
                    cm_userId cm \<in> set (map u_id (users s))) (conversationMembers s) \<and>
     list_all (\<lambda>m. m_conversationId m \<in> set (map c_id (conversations s)) \<and>
                   senderId m \<in> set (map u_id (users s))) (messages s) \<and>
     list_all (\<lambda>r. r_messageId r \<in> set (map m_id (messages s)) \<and>
                   r_userId r \<in> set (map u_id (users s))) (messageReadReceipts s)"

definition wf_store :: "store \<Rightarrow> bool" where
  "wf_store s \<longleftrightarrow> primary_keys s \<and> foreign_keys s"

section \<open>What the database does with a statement\<close>

datatype db_error = ForeignKeyViolation | BigintOutOfRange

text \<open>
  \<open>gen_random_uuid()\<close>: the new row's key is a value that is not yet a key of the table.
\<close>

definition fresh_id :: "ident list \<Rightarrow> ident" where
  "fresh_id ids = Suc (foldr max ids 0)"

text \<open>
  A column of an insert is either left out, so that the column's default applies, or
  given (possibly as \<open>NULL\<close>).
\<close>

datatype 'a column_value = UseDefault | Given 'a

definition or_default :: "'a \<Rightarrow> 'a column_value \<Rightarrow> 'a" where
  "or_default d v = (case v of UseDefault \<Rightarrow> d | Given x \<Rightarrow> x)"

text \<open>
  \<open>INSERT ... ON CONFLICT DO NOTHING\<close> skips the row when it violates a unique
  constraint of the table. The only unique constraint of the tables here is the primary
  key, so the conflict test is on \<open>key\<close>.
\<close>

definition conflicts :: "('a \<Rightarrow> ident) \<Rightarrow> 'a \<Rightarrow> 'a list \<Rightarrow> bool" where
  "conflicts key row rows \<longleftrightarrow> key row \<in> set (map key rows)"

text \<open>Joins, as nested loops over the two tables.\<close>

definition inner_join :: "'a list \<Rightarrow> 'b list \<Rightarrow> ('a \<Rightarrow> 'b \<Rightarrow> bool) \<Rightarrow> ('a \<times> 'b) list" where
  "inner_join as bs on = concat (map (\<lambda>a. map (Pair a) (filter (on a) bs)) as)"

definition left_join :: "'a list \<Rightarrow> 'b list \<Rightarrow> ('a \<Rightarrow> 'b \<Rightarrow> bool) \<Rightarrow> ('a \<times> 'b option) list" where
  "left_join as bs on =
     concat (map (\<lambda>a. case filter (on a) bs of
                          [] \<Rightarrow> [(a, None)]
                        | b # bs' \<Rightarrow> map (\<lambda>b. (a, Some b)) (b # bs')) as)"

text \<open>
  \<open>ORDER BY key DESC\<close>: the answer holds the same rows, sorted by the key, largest
  first. SQL leaves the order of rows with equal keys to the database, so the answer is
  not a function of the rows: \<open>order_by_desc key rows out\<close> says that \<open>out\<close> is an answer
  the database may give. \<open>LIMIT n\<close> keeps the first \<open>n\<close> rows of that answer.
\<close>

definition order_by_desc :: "('a \<Rightarrow> timestamp) \<Rightarrow> 'a list \<Rightarrow> 'a list \<Rightarrow> bool" where
  "order_by_desc key rows out \<longleftrightarrow>
     mset out = mset rows \<and> sorted_wrt (\<lambda>a b. key b \<le> key a) out"

definition order_by_desc_limit :: "('a \<Rightarrow> timestamp) \<Rightarrow> nat \<Rightarrow> 'a list \<Rightarrow> 'a list \<Rightarrow> bool" where
  "order_by_desc_limit key n rows out \<longleftrightarrow>
     (\<exists>ordered. order_by_desc key rows ordered \<and> out = take n ordered)"

section \<open>The storage layer (server/storage.ts, class DatabaseStorage)\<close>

subsection \<open>Conversations and members\<close>

record insertConversation =
  ic_name :: "string option"
  ic_isGroup :: "bool option column_value"

definition createConversation ::
  "store \<Rightarrow> timestamp \<Rightarrow> insertConversation \<Rightarrow> store \<times> conversation" where
  "createConversation s now ic =
     (let newConversation =
            \<lparr>c_id = fresh_id (map c_id (conversations s)),
             c_name = ic_name ic,
             isGroup = or_default (Some False) (ic_isGroup ic),
             c_createdAt = now,
             c_updatedAt = now\<rparr>
      in (s\<lparr>conversations := conversations s @ [newConversation]\<rparr>, newConversation))"

definition getConversation :: "store \<Rightarrow> ident \<Rightarrow> conversation option" where
  "getConversation s i = List.find (\<lambda>c. c_id c = i) (conversations s)"

text \<open>
  \<open>addConversationMember\<close> is a plain insert: it goes through when the conversation
  and the user it references exist, and a second row for the same (conversation, user)
  is accepted.
\<close>

definition addConversationMember ::
  "store \<Rightarrow> timestamp \<Rightarrow> ident \<Rightarrow> ident \<Rightarrow> db_error + store \<times> conversationMember" where
  "addConversationMember s now conversationId userId =
     (if conversationId \<in> set (map c_id (conversations s)) \<and>
         userId \<in> set (map u_id (users s))
      then let newMember =
                 \<lparr>cm_id = fresh_id (map cm_id (conversationMembers s)),
                  cm_conversationId = conversationId,
                  cm_userId = userId,
                  joinedAt = now\<rparr>
           in Inr (s\<lparr>conversationMembers := conversationMembers s @ [newMember]\<rparr>, newMember)
      else Inl ForeignKeyViolation)"

text \<open>
  \<open>getConversationMembers\<close> joins the memberships of the conversation with their
  users. The query has no \<open>ORDER BY\<close>, so the database may return the rows in any
  order: \<open>member_rows\<close> lists them in the order of the nested loop, and every
  rearrangement of that list is an answer.
\<close>

definition member_rows :: "store \<Rightarrow> ident \<Rightarrow> user list" where
  "member_rows s conversationId =
     map snd (filter (\<lambda>(cm, u). cm_conversationId cm = conversationId)
                (inner_join (conversationMembers s) (users s) (\<lambda>cm u. cm_userId cm = u_id u)))"

definition getConversationMembers :: "store \<Rightarrow> ident \<Rightarrow> user list \<Rightarrow> bool" where
  "getConversationMembers s conversationId members \<longleftrightarrow>
     mset members = mset (member_rows s conversationId)"

subsection \<open>Messages\<close>

record insertMessage =
  im_conversationId :: ident
  im_senderId :: ident
  im_content :: string
  im_messageType :: "string option column_value"
  im_isEdited :: "bool option column_value"

text \<open>
  \<open>createMessage\<close> runs two statements: the insert, whose \<open>createdAt\<close> and
  \<open>updatedAt\<close> are the database's \<open>now()\<close> (\<open>tInsert\<close>), and the update of the parent
  conversation, whose \<open>updatedAt\<close> is the server's \<open>new Date()\<close> (\<open>tUpdate\<close>).
  An update that matches no row changes nothing and is no error.
\<close>

definition touch_conversation :: "ident \<Rightarrow> timestamp \<Rightarrow> conversation \<Rightarrow> conversation" where
  "touch_conversation conversationId t c =
     (if c_id c = conversationId then c\<lparr>c_updatedAt := t\<rparr> else c)"

definition createMessage ::
  "store \<Rightarrow> timestamp \<Rightarrow> timestamp \<Rightarrow> insertMessage \<Rightarrow> db_error + store \<times> message" where
  "createMessage s tInsert tUpdate im =
     (if im_conversationId im \<in> set (map c_id (conversations s)) \<and>
         im_senderId im \<in> set (map u_id (users s))
      then let newMessage =
                 \<lparr>m_id = fresh_id (map m_id (messages s)),
                  m_conversationId = im_conversationId im,
                  senderId = im_senderId im,
                  content = im_content im,
                  messageType = or_default (Some ''text'') (im_messageType im),
                  isEdited = or_default (Some False) (im_isEdited im),
                  m_createdAt = tInsert,
                  m_updatedAt = tInsert\<rparr>;
               s1 = s\<lparr>messages := messages s @ [newMessage]\<rparr>;
               s2 = s1\<lparr>conversations :=
                         map (touch_conversation (im_conversationId im) tUpdate) (conversations s1)\<rparr>
           in Inr (s2, newMessage)
      else Inl ForeignKeyViolation)"

text \<open>
  \<open>getConversationMessages\<close>: messages joined with their senders, newest first, cut at
  \<open>limit\<close> (50 when the argument is absent), then reversed. The query builder writes
  the \<open>LIMIT\<close> clause only for a limit that is not negative, so a negative limit
  returns every row. The database reads the limit as a \<open>bigint\<close> and raises for a
  value of \<open>2 ^ 63\<close> or more. A row of the answer is the pair of the message and its
  sender (the code's \<open>{...message, sender}\<close>).
\<close>

definition messages_with_sender :: "store \<Rightarrow> ident \<Rightarrow> (message \<times> user) list" where
  "messages_with_sender s conversationId =
     filter (\<lambda>(m, u). m_conversationId m = conversationId)
       (inner_join (messages s) (users s) (\<lambda>m u. senderId m = u_id u))"

definition getConversationMessages ::
  "store \<Rightarrow> ident \<Rightarrow> int option \<Rightarrow> db_error + (message \<times> user) list \<Rightarrow> bool" where
  "getConversationMessages s conversationId limit res \<longleftrightarrow>
     (let n = (case limit of None \<Rightarrow> 50 | Some l \<Rightarrow> l)
      in if n < 0
         then (case res of
                 Inl e \<Rightarrow> False
               | Inr out \<Rightarrow>
                   order_by_desc (\<lambda>(m, u). m_createdAt m)
                     (messages_with_sender s conversationId) (rev out))
         else if 2 ^ 63 \<le> n then res = Inl BigintOutOfRange
         else (case res of
                 Inl e \<Rightarrow> False
               | Inr out \<Rightarrow>
                   order_by_desc_limit (\<lambda>(m, u). m_createdAt m) (nat n)
                     (messages_with_sender s conversationId) (rev out)))"

subsection \<open>Read receipts\<close>

text \<open>
  \<open>markMessageAsRead\<close> inserts \<open>{messageId, userId}\<close> with \<open>onConflictDoNothing()\<close>.
  The new row's \<open>id\<close> is generated, and \<open>id\<close> is the table's only unique column.
\<close>

definition markMessageAsRead ::
  "store \<Rightarrow> timestamp \<Rightarrow> ident \<Rightarrow> ident \<Rightarrow> db_error + store" where
  "markMessageAsRead s now messageId userId =
     (let newReceipt =
            \<lparr>r_id = fresh_id (map r_id (messageReadReceipts s)),
             r_messageId = messageId,
             r_userId = userId,
             readAt = now\<rparr>
      in if conflicts r_id newReceipt (messageReadReceipts s) then Inr s
         else if messageId \<in> set (map m_id (messages s)) \<and>
                 userId \<in> set (map u_id (users s))
         then Inr (s\<lparr>messageReadReceipts := messageReadReceipts s @ [newReceipt]\<rparr>)
         else Inl ForeignKeyViolation)"

subsection \<open>The conversation list of a user\<close>

text \<open>
  \<open>getUserConversations\<close> asks one query for the user's conversations, newest
  \<open>updatedAt\<close> first, and then three queries per conversation: the last message, the
  unread count and the other members. \<open>count(*)\<close> is taken as the number the code's
  \<open>sql<number>\<close> annotation declares. The query for the other members has no
  \<open>ORDER BY\<close>: \<open>other_members\<close> lists its rows in the order of the nested loop,
  and an entry may hold them in any order.
\<close>

record conversationEntry =
  conv :: conversation
  lastMessage :: "message option"
  unreadCount :: nat
  otherMembers :: "user list"

definition user_conversations :: "store \<Rightarrow> ident \<Rightarrow> conversation list" where
  "user_conversations s userId =
     map snd (filter (\<lambda>(cm, c). cm_userId cm = userId)
                (inner_join (conversationMembers s) (conversations s)
                   (\<lambda>cm c. cm_conversationId cm = c_id c)))"

text \<open>
  The last message: \<open>ORDER BY createdAt DESC LIMIT 1\<close>, destructured as
  \<open>[lastMessage]\<close>, which is \<open>undefined\<close> on an empty answer.
\<close>

definition last_message :: "store \<Rightarrow> ident \<Rightarrow> message option \<Rightarrow> bool" where
  "last_message s conversationId lm \<longleftrightarrow>
     order_by_desc_limit m_createdAt 1
       (filter (\<lambda>m. m_conversationId m = conversationId) (messages s))
       (case lm of None \<Rightarrow> [] | Some m \<Rightarrow> [m])"

text \<open>
  The unread count: messages left-joined with the user's receipts, keeping the rows of
  the conversation whose receipt side is \<open>NULL\<close> and whose sender is another user.
\<close>

definition unread_count :: "store \<Rightarrow> ident \<Rightarrow> ident \<Rightarrow> nat" where
  "unread_count s conversationId userId =
     length (filter (\<lambda>(m, r). m_conversationId m = conversationId \<and> r = None \<and>
                              senderId m \<noteq> userId)
               (left_join (messages s) (messageReadReceipts s)
                  (\<lambda>m r. r_messageId r = m_id m \<and> r_userId r = userId)))"

definition other_members :: "store \<Rightarrow> ident \<Rightarrow> ident \<Rightarrow> user list" where
  "other_members s conversationId userId =
     map snd (filter (\<lambda>(cm, u). cm_conversationId cm = conversationId \<and> cm_userId cm \<noteq> userId)
                (inner_join (conversationMembers s) (users s) (\<lambda>cm u. cm_userId cm = u_id u)))"

definition conversation_entry :: "store \<Rightarrow> ident \<Rightarrow> conversationEntry \<Rightarrow> bool" where
  "conversation_entry s userId e \<longleftrightarrow>
     last_message s (c_id (conv e)) (lastMessage e) \<and>
     unreadCount e = unread_count s (c_id (conv e)) userId \<and>
     mset (otherMembers e) = mset (other_members s (c_id (conv e)) userId)"

text \<open>
  \<open>result\<close> is an answer of \<open>getUserConversations\<close>: its conversations are an answer of
  the ordered query, and each entry is what the loop pushes for its conversation.
\<close>

definition getUserConversations :: "store \<Rightarrow> ident \<Rightarrow> conversationEntry list \<Rightarrow> bool" where
  "getUserConversations s userId result \<longleftrightarrow>
     order_by_desc c_updatedAt (user_conversations s userId) (map conv result) \<and>
     list_all (conversation_entry s userId) result"

section \<open>The HTTP handlers (server/routes.ts)\<close>

text \<open>
  A handler gets the store, the authenticated user \<open>userId\<close> (\<open>req.user.claims.sub\<close>)
  and the parsed request; it returns the store it leaves behind and the response.
  \<open>Json x\<close> is \<open>res.json(x)\<close>, \<open>Status c m\<close> is \<open>res.status(c).json({message: m})\<close>.
  Every handler catches whatever its body throws and answers 500; nothing is rolled
  back. The clock readings of one request are modelled by the one reading \<open>now\<close>.
\<close>

datatype 'a response = Json 'a | Status nat string

subsection \<open>POST /api/conversations\<close>

record createConversationBody =
  b_name :: "string option"
  b_isGroup :: "bool option column_value"
  b_memberIds :: "ident list"

text \<open>
  The loop over \<open>memberIds\<close>; it returns the store reached and the error that stopped
  it, if one did.
\<close>

fun add_other_members ::
  "store \<Rightarrow> timestamp \<Rightarrow> ident \<Rightarrow> ident \<Rightarrow> ident list \<Rightarrow> store \<times> db_error option" where
  "add_other_members s now conversationId userId [] = (s, None)"
| "add_other_members s now conversationId userId (memberId # memberIds) =
     (if memberId \<noteq> userId
      then (case addConversationMember s now conversationId memberId of
              Inl e \<Rightarrow> (s, Some e)
            | Inr (s', newMember) \<Rightarrow> add_other_members s' now conversationId userId memberIds)
      else add_other_members s now conversationId userId memberIds)"

definition post_conversations ::
  "store \<Rightarrow> timestamp \<Rightarrow> ident \<Rightarrow> createConversationBody \<Rightarrow> store \<times> conversation response" where
  "post_conversations s now userId body =
     (if b_memberIds body = [] then (s, Status 500 ''Failed to create conversation'')
      else case createConversation s now \<lparr>ic_name = b_name body, ic_isGroup = b_isGroup body\<rparr> of
        (s1, conversation) \<Rightarrow>
          (case addConversationMember s1 now (c_id conversation) userId of
             Inl e \<Rightarrow> (s1, Status 500 ''Failed to create conversation'')
           | Inr (s2, creator) \<Rightarrow>
               (case add_other_members s2 now (c_id conversation) userId (b_memberIds body) of
                  (s3, Some e) \<Rightarrow> (s3, Status 500 ''Failed to create conversation'')
                | (s3, None) \<Rightarrow> (s3, Json conversation))))"

subsection \<open>GET and POST /api/conversations/:id/messages\<close>

text \<open>
  The handlers ask \<open>members.some(member => member.id === userId)\<close> of the answer of
  \<open>getConversationMembers\<close>. \<open>isMember\<close> is that test on the rows of the query.
\<close>

definition isMember :: "store \<Rightarrow> ident \<Rightarrow> ident \<Rightarrow> bool" where
  "isMember s conversationId userId \<longleftrightarrow>
     list_ex (\<lambda>member. u_id member = userId) (member_rows s conversationId)"

text \<open>
  The GET handler only reads. \<open>limit\<close> is the query parameter after \<open>parseInt\<close>,
  \<open>None\<close> when the parameter is absent.
\<close>

definition get_conversation_messages ::
  "store \<Rightarrow> ident \<Rightarrow> ident \<Rightarrow> int option \<Rightarrow> (message \<times> user) list response \<Rightarrow> bool" where
  "get_conversation_messages s userId conversationId limit out \<longleftrightarrow>
     (\<exists>members.
        getConversationMembers s conversationId members \<and>
        (if \<not> list_ex (\<lambda>member. u_id member = userId) members
         then out = Status 403 ''Access denied''
         else \<exists>res. getConversationMessages s conversationId
                       (Some (case limit of None \<Rightarrow> 50 | Some l \<Rightarrow> l)) res \<and>
                    out = (case res of
                             Inl e \<Rightarrow> Status 500 ''Failed to fetch messages''
                           | Inr ms \<Rightarrow> Json ms)))"

text \<open>
  The POST handler parses the body first (\<open>content\<close> is required), then checks the
  membership, then writes the message, marks it read by its sender and answers with the
  newest message of the conversation.
\<close>

record sendMessageBody =
  sb_content :: "string option"
  sb_messageType :: "string option column_value"

definition post_conversation_messages ::
  "store \<Rightarrow> timestamp \<Rightarrow> ident \<Rightarrow> ident \<Rightarrow> sendMessageBody \<Rightarrow>
   store \<times> (message \<times> user) option response \<Rightarrow> bool" where
  "post_conversation_messages s now userId conversationId body out \<longleftrightarrow>
     (case sb_content body of
        None \<Rightarrow> out = (s, Status 500 ''Failed to send message'')
      | Some c \<Rightarrow>
          (\<exists>members.
             getConversationMembers s conversationId members \<and>
             (if \<not> list_ex (\<lambda>member. u_id member = userId) members
              then out = (s, Status 403 ''Access denied'')
              else (case createMessage s now now
                       \<lparr>im_conversationId = conversationId, im_senderId = userId,
                        im_content = c, im_messageType = sb_messageType body,
                        im_isEdited = UseDefault\<rparr> of
                  Inl e \<Rightarrow> out = (s, Status 500 ''Failed to send message'')
                | Inr (s1, newMessage) \<Rightarrow>
                    (case markMessageAsRead s1 now (m_id newMessage) userId of
                       Inl e \<Rightarrow> out = (s1, Status 500 ''Failed to send message'')
                     | Inr s2 \<Rightarrow>
                         (\<exists>res. getConversationMessages s2 conversationId (Some 1) res \<and>
                            out = (s2, case res of
                                         Inl e \<Rightarrow> Status 500 ''Failed to send message''
                                       | Inr ms \<Rightarrow> Json (case ms of [] \<Rightarrow> None | x # xs \<Rightarrow> Some x))))))))"

subsection \<open>POST /api/messages/:id/read\<close>

definition post_message_read :: "store \<Rightarrow> timestamp \<Rightarrow> ident \<Rightarrow> ident \<Rightarrow> store \<times> unit response" where
  "post_message_read s now userId messageId =
     (case markMessageAsRead s now messageId userId of
        Inl e \<Rightarrow> (s, Status 500 ''Failed to mark message as read'')
      | Inr s' \<Rightarrow> (s', Json ()))"

subsection \<open>POST /api/conversations/direct\<close>

datatype directConversation = Existing conversationEntry | Created conversation

fun direct_id :: "directConversation \<Rightarrow> ident" where
  "direct_id (Existing e) = c_id (conv e)"
| "direct_id (Created c) = c_id c"

text \<open>
  The test of \<open>find\<close>: not a group, exactly one other member, and that member is
  \<open>otherUserId\<close>. \<open>!conv.isGroup\<close> holds for \<open>false\<close> and for \<open>null\<close>.
\<close>

definition is_direct_with :: "ident \<Rightarrow> conversationEntry \<Rightarrow> bool" where
  "is_direct_with otherUserId e \<longleftrightarrow>
     isGroup (conv e) \<noteq> Some True \<and>
     (case otherMembers e of [u] \<Rightarrow> u_id u = otherUserId | _ \<Rightarrow> False)"

text \<open>The handler once the database has answered \<open>getUserConversations\<close>.\<close>

definition direct_from ::
  "conversationEntry list \<Rightarrow> store \<Rightarrow> timestamp \<Rightarrow> ident \<Rightarrow> ident \<Rightarrow>
   store \<times> directConversation response" where
  "direct_from existingConversations s now userId otherUserId =
     (case List.find (is_direct_with otherUserId) existingConversations of
        Some found \<Rightarrow> (s, Json (Existing found))
      | None \<Rightarrow>
          (case createConversation s now \<lparr>ic_name = None, ic_isGroup = Given (Some False)\<rparr> of
             (s1, conversation) \<Rightarrow>
               (case addConversationMember s1 now (c_id conversation) userId of
                  Inl e \<Rightarrow> (s1, Status 500 ''Failed to create conversation'')
                | Inr (s2, m1) \<Rightarrow>
                    (case addConversationMember s2 now (c_id conversation) otherUserId of
                       Inl e \<Rightarrow> (s2, Status 500 ''Failed to create conversation'')
                     | Inr (s3, m2) \<Rightarrow> (s3, Json (Created conversation))))))"

definition post_conversations_direct ::
  "store \<Rightarrow> timestamp \<Rightarrow> ident \<Rightarrow> ident \<Rightarrow> store \<times> directConversation response \<Rightarrow> bool" where
  "post_conversations_direct s now userId otherUserId out \<longleftrightarrow>
     (\<exists>existingConversations.
        getUserConversations s userId existingConversations \<and>
        out = direct_from existingConversations s now userId otherUserId)"

text \<open>
  The test of \<open>find\<close> read on the store: conversation \<open>c\<close> is not a group and its
  members other than \<open>userId\<close> are exactly the one user \<open>otherUserId\<close>.
\<close>

definition direct_candidate :: "store \<Rightarrow> ident \<Rightarrow> ident \<Rightarrow> conversation \<Rightarrow> bool" where
  "direct_candidate s userId otherUserId c \<longleftrightarrow>
     isGroup c \<noteq> Some True \<and> map u_id (other_members s (c_id c) userId) = [otherUserId]"

section \<open>Example data\<close>

text \<open>
  Four users. Conversation 1 is the direct conversation of users 1 and 2, conversation 2
  a group of users 1, 2 and 3; both were last touched at time 20. User 4 belongs to no
  conversation. Conversation 1 holds three messages, of which user 1 has read the first
  two; conversation 2 holds none.
\<close>

definition example_user :: "ident \<Rightarrow> user" where
  "example_user i =
     \<lparr>u_id = i, email = None, firstName = None, lastName = None, profileImageUrl = None,
      isOnline = Some False, lastSeen = None, u_createdAt = None, u_updatedAt = None\<rparr>"

definition example_direct :: conversation where
  "example_direct =
     \<lparr>c_id = 1, c_name = None, isGroup = Some False, c_createdAt = 1, c_updatedAt = 20\<rparr>"

definition example_group :: conversation where
  "example_group =
     \<lparr>c_id = 2, c_name = Some ''team'', isGroup = Some True, c_createdAt = 2, c_updatedAt = 20\<rparr>"

definition example_message :: "ident \<Rightarrow> ident \<Rightarrow> timestamp \<Rightarrow> message" where
  "example_message i sender t =
     \<lparr>m_id = i, m_conversationId = 1, senderId = sender, content = ''hello'',
      messageType = Some ''text'', isEdited = Some False, m_createdAt = t, m_updatedAt = t\<rparr>"

definition example_store :: store where
  "example_store =
     \<lparr>users = [example_user 1, example_user 2, example_user 3, example_user 4],
      conversations = [example_direct, example_group],
      conversationMembers =
        [\<lparr>cm_id = 1, cm_conversationId = 1, cm_userId = 1, joinedAt = 1\<rparr>,
         \<lparr>cm_id = 2, cm_conversationId = 1, cm_userId = 2, joinedAt = 1\<rparr>,
         \<lparr>cm_id = 3, cm_conversationId = 2, cm_userId = 1, joinedAt = 2\<rparr>,
         \<lparr>cm_id = 4, cm_conversationId = 2, cm_userId = 2, joinedAt = 2\<rparr>,
         \<lparr>cm_id = 5, cm_conversationId = 2, cm_userId = 3, joinedAt = 2\<rparr>],
      messages = [example_message 1 1 5, example_message 2 2 7, example_message 3 2 9],
      messageReadReceipts =
        [\<lparr>r_id = 1, r_messageId = 1, r_userId = 1, readAt = 6\<rparr>,
         \<lparr>r_id = 2, r_messageId = 2, r_userId = 1, readAt = 8\<rparr>]\<rparr>"

text \<open>
  Two bodies for \<open>POST /api/conversations\<close>, sent by user 1: one names user 9, who
  does not exist, between two users who do; the other names the creator twice.
\<close>

definition example_body_unknown :: createConversationBody where
  "example_body_unknown =
     \<lparr>b_name = Some ''project'', b_isGroup = Given (Some True), b_memberIds = [2, 9, 3]\<rparr>"

definition example_body_self :: createConversationBody where
  "example_body_self = \<lparr>b_name = None, b_isGroup = UseDefault, b_memberIds = [1, 2, 1]\<rparr>"

text \<open>
  The two entries of user 1's conversation list in the example store, and the entry of
  user 3's.
\<close>

definition example_entry_direct :: conversationEntry where
  "example_entry_direct =
     \<lparr>conv = example_direct, lastMessage = Some (example_message 3 2 9), unreadCount = 1,
      otherMembers = [example_user 2]\<rparr>"

definition example_entry_group :: conversationEntry where
  "example_entry_group =
     \<lparr>conv = example_group, lastMessage = None, unreadCount = 0,
      otherMembers = [example_user 2, example_user 3]\<rparr>"

definition example_entry_group3 :: conversationEntry where
  "example_entry_group3 =
     \<lparr>conv = example_group, lastMessage = None, unreadCount = 0,
      otherMembers = [example_user 1, example_user 2]\<rparr>"

text \<open>
  The store after user 4 has asked for a direct conversation with user 4: conversation 3
  with two membership rows of user 4; and the entry of conversation 3 in user 4's list.
\<close>

definition example_created :: conversation where
  "example_created =
     \<lparr>c_id = 3, c_name = None, isGroup = Some False, c_createdAt = 30, c_updatedAt = 30\<rparr>"

definition example_self_store :: store where
  "example_self_store =
     example_store
       \<lparr>conversations := conversations example_store @ [example_created],
        conversationMembers := conversationMembers example_store @
          [\<lparr>cm_id = 6, cm_conversationId = 3, cm_userId = 4, joinedAt = 30\<rparr>,
           \<lparr>cm_id = 7, cm_conversationId = 3, cm_userId = 4, joinedAt = 30\<rparr>]\<rparr>"

definition example_entry_self :: conversationEntry where
  "example_entry_self =
     \<lparr>conv = example_created, lastMessage = None, unreadCount = 0, otherMembers = []\<rparr>"

text \<open>
  The store after user 1 has asked for a direct conversation with user 4: conversation 3
  with the membership rows of users 1 and 4; and its entry in user 1's list.
\<close>

definition example_direct_store :: store where
  "example_direct_store =
     example_store
       \<lparr>conversations := conversations example_store @ [example_created],
        conversationMembers := conversationMembers example_store @
          [\<lparr>cm_id = 6, cm_conversationId = 3, cm_userId = 1, joinedAt = 30\<rparr>,
           \<lparr>cm_id = 7, cm_conversationId = 3, cm_userId = 4, joinedAt = 30\<rparr>]\<rparr>"

definition example_entry_created :: conversationEntry where
  "example_entry_created =
     \<lparr>conv = example_created, lastMessage = None, unreadCount = 0,
      otherMembers = [example_user 4]\<rparr>"

text \<open>
  The example store with a second non-group conversation of users 1 and 2, conversation
  3, last touched at time 20 like conversation 1; and its entry in user 1's list.
\<close>

definition example_direct2 :: conversation where
  "example_direct2 =
     \<lparr>c_id = 3, c_name = None, isGroup = Some False, c_createdAt = 3, c_updatedAt = 20\<rparr>"

definition example_tie_store :: store where
  "example_tie_store =
     example_store
       \<lparr>conversations := conversations example_store @ [example_direct2],
        conversationMembers := conversationMembers example_store @
          [\<lparr>cm_id = 6, cm_conversationId = 3, cm_userId = 1, joinedAt = 3\<rparr>,
           \<lparr>cm_id = 7, cm_conversationId = 3, cm_userId = 2, joinedAt = 3\<rparr>]\<rparr>"

definition example_entry_direct2 :: conversationEntry where
  "example_entry_direct2 =
     \<lparr>conv = example_direct2, lastMessage = None, unreadCount = 0,
      otherMembers = [example_user 2]\<rparr>"

section \<open>Basic facts\<close>

lemmas example_defs =
  example_store_def example_user_def example_direct_def example_group_def example_message_def

lemma wf_example_store: "wf_store example_store"
  by (simp add: wf_store_def primary_keys_def foreign_keys_def example_defs)

lemma fresh_id_ge: "x \<in> set ids \<Longrightarrow> x < fresh_id ids"
  unfolding fresh_id_def by (induction ids) (auto simp: less_Suc_eq_le max_def)

lemma fresh_id_notin: "fresh_id ids \<notin> set ids"
  using fresh_id_ge by blast

section \<open>The writes keep the keys of the schema\<close>

text \<open>
  Every write of the storage layer that goes through leaves a store that satisfies the
  primary and foreign keys, so the stores the handlers can reach all do.
\<close>

lemma createConversation_wf:
  "wf_store s \<Longrightarrow> wf_store (fst (createConversation s now ic))"
  using fresh_id_notin[of "map c_id (conversations s)"]
  by (auto simp: createConversation_def Let_def wf_store_def primary_keys_def foreign_keys_def
      list_all_iff)

lemma addConversationMember_wf:
  "wf_store s \<Longrightarrow> addConversationMember s now conversationId userId = Inr (s', m) \<Longrightarrow>
   wf_store s'"
  using fresh_id_notin[of "map cm_id (conversationMembers s)"]
  by (auto simp: addConversationMember_def Let_def wf_store_def primary_keys_def
      foreign_keys_def list_all_iff split: if_splits)

lemma touch_conversation_id: "c_id (touch_conversation i t c) = c_id c"
  by (simp add: touch_conversation_def)

lemma createMessage_wf:
  assumes "wf_store s" and "createMessage s tInsert tUpdate im = Inr (s', m)"
  shows "wf_store s'"
proof -
  from assms(2) have ok: "im_conversationId im \<in> set (map c_id (conversations s))"
      "im_senderId im \<in> set (map u_id (users s))"
    by (auto simp: createMessage_def split: if_splits)
  with assms(2) have s': "users s' = users s"
      "map c_id (conversations s') = map c_id (conversations s)"
      "conversationMembers s' = conversationMembers s"
      "messages s' = messages s @ [m]"
      "messageReadReceipts s' = messageReadReceipts s"
    and m: "m_id m = fresh_id (map m_id (messages s))"
      "m_conversationId m = im_conversationId im" "senderId m = im_senderId im"
    by (auto simp: createMessage_def Let_def touch_conversation_id comp_def simp del: set_map)
  show ?thesis
    using assms(1) ok fresh_id_notin[of "map m_id (messages s)"]
    by (simp add: wf_store_def primary_keys_def foreign_keys_def s' m list_all_iff del: set_map)
qed

lemma markMessageAsRead_wf:
  "wf_store s \<Longrightarrow> markMessageAsRead s now messageId userId = Inr s' \<Longrightarrow> wf_store s'"
  using fresh_id_notin[of "map r_id (messageReadReceipts s)"]
  by (auto simp: markMessageAsRead_def Let_def wf_store_def primary_keys_def conflicts_def
      foreign_keys_def list_all_iff split: if_splits)

section \<open>createMessage: the insert and the touch of the parent conversation\<close>

text \<open>
  Claim C7, as stated, at two concrete inputs. A message for conversation 1 of the
  example store is inserted when the database's clock reads 30, and the server's clock
  reads 31 when the update is issued: the new row's \<open>createdAt\<close> is 30, the time of the
  insert, and the parent conversation's \<open>updatedAt\<close> becomes 31. A message for
  conversation 9, which does not exist, is refused, and no row is stored.
\<close>

theorem createMessage_touch_is_not_insertion_time:
  "createMessage example_store 30 31
     \<lparr>im_conversationId = 1, im_senderId = 2, im_content = ''again'',
      im_messageType = UseDefault, im_isEdited = UseDefault\<rparr> =
   Inr (example_store
          \<lparr>messages := messages example_store @
             [\<lparr>m_id = 4, m_conversationId = 1, senderId = 2, content = ''again'',
               messageType = Some ''text'', isEdited = Some False,
               m_createdAt = 30, m_updatedAt = 30\<rparr>],
           conversations := [example_direct\<lparr>c_updatedAt := 31\<rparr>, example_group]\<rparr>,
        \<lparr>m_id = 4, m_conversationId = 1, senderId = 2, content = ''again'',
         messageType = Some ''text'', isEdited = Some False,
         m_createdAt = 30, m_updatedAt = 30\<rparr>) \<and>
   c_updatedAt (example_direct\<lparr>c_updatedAt := 31\<rparr>) \<noteq> 30 \<and>
   createMessage example_store 30 31
     \<lparr>im_conversationId = 9, im_senderId = 2, im_content = ''again'',
      im_messageType = UseDefault, im_isEdited = UseDefault\<rparr> = Inl ForeignKeyViolation"
  by (simp add: createMessage_def Let_def fresh_id_def touch_conversation_def or_default_def
      example_defs)

text \<open>
  Claim C7, amended. A call of \<open>createMessage\<close> for an existing conversation and an
  existing sender succeeds. The new row has a generated id that no message had, the
  conversation, sender and content of the call, the given \<open>messageType\<close> or
  \<open>text\<close>, the given \<open>isEdited\<close> or \<open>false\<close>, and the database's time of the
  insert \<open>tInsert\<close> as \<open>createdAt\<close> and \<open>updatedAt\<close>; the messages table is the old
  one followed by this row. The parent conversation differs from its old row in
  \<open>updatedAt\<close> only, which is the server's clock reading \<open>tUpdate\<close> taken when the
  update is issued after the insert, a reading of its own and not the time of the
  insert. Every other conversation row is as it was, and the users, memberships and
  receipts are untouched. A call for a conversation or a sender that does not exist is
  refused by the foreign keys and stores nothing.
\<close>

theorem createMessage_frame:
  "(im_conversationId im \<in> set (map c_id (conversations s)) \<and>
    im_senderId im \<in> set (map u_id (users s)) \<longrightarrow>
      (\<exists>s' newMessage.
         createMessage s tInsert tUpdate im = Inr (s', newMessage) \<and>
         newMessage =
           \<lparr>m_id = fresh_id (map m_id (messages s)),
            m_conversationId = im_conversationId im,
            senderId = im_senderId im,
            content = im_content im,
            messageType = (case im_messageType im of UseDefault \<Rightarrow> Some ''text'' | Given v \<Rightarrow> v),
            isEdited = (case im_isEdited im of UseDefault \<Rightarrow> Some False | Given v \<Rightarrow> v),
            m_createdAt = tInsert,
            m_updatedAt = tInsert\<rparr> \<and>
         m_id newMessage \<notin> set (map m_id (messages s)) \<and>
         messages s' = messages s @ [newMessage] \<and>
         list_all2 (\<lambda>c c'. if c_id c = im_conversationId im
                            then c' = c\<lparr>c_updatedAt := tUpdate\<rparr> else c' = c)
           (conversations s) (conversations s') \<and>
         users s' = users s \<and>
         conversationMembers s' = conversationMembers s \<and>
         messageReadReceipts s' = messageReadReceipts s)) \<and>
   (\<not> (im_conversationId im \<in> set (map c_id (conversations s)) \<and>
        im_senderId im \<in> set (map u_id (users s))) \<longrightarrow>
      createMessage s tInsert tUpdate im = Inl ForeignKeyViolation)"
  by (simp add: createMessage_def Let_def fresh_id_notin list_all2_map2 touch_conversation_def
      list_all2_same or_default_def del: set_map)

theorem createMessage_frame_witness:
  "(1::nat) \<in> set (map c_id (conversations example_store)) \<and>
   (3::nat) \<in> set (map u_id (users example_store)) \<and>
   (\<exists>s'. createMessage example_store 40 45
        \<lparr>im_conversationId = 1, im_senderId = 3, im_content = ''photo'',
         im_messageType = Given (Some ''image''), im_isEdited = UseDefault\<rparr> =
        Inr (s', \<lparr>m_id = 4, m_conversationId = 1, senderId = 3, content = ''photo'',
                  messageType = Some ''image'', isEdited = Some False,
                  m_createdAt = 40, m_updatedAt = 40\<rparr>) \<and>
      messages s' = messages example_store @
        [\<lparr>m_id = 4, m_conversationId = 1, senderId = 3, content = ''photo'',
          messageType = Some ''image'', isEdited = Some False,
          m_createdAt = 40, m_updatedAt = 40\<rparr>] \<and>
      conversations s' = [example_direct\<lparr>c_updatedAt := 45\<rparr>, example_group] \<and>
      users s' = users example_store \<and>
      conversationMembers s' = conversationMembers example_store \<and>
      messageReadReceipts s' = messageReadReceipts example_store) \<and>
   (1::nat) \<in> set (map c_id (conversations example_store)) \<and>
   (7::nat) \<notin> set (map u_id (users example_store)) \<and>
   createMessage example_store 40 45
        \<lparr>im_conversationId = 1, im_senderId = 7, im_content = ''photo'',
         im_messageType = Given (Some ''image''), im_isEdited = UseDefault\<rparr> =
     Inl ForeignKeyViolation"
proof -
  let ?im = "\<lparr>im_conversationId = 1, im_senderId = 3, im_content = ''photo'',
         im_messageType = Given (Some ''image''), im_isEdited = UseDefault\<rparr>"
  let ?im' = "\<lparr>im_conversationId = 1, im_senderId = 7, im_content = ''photo'',
         im_messageType = Given (Some ''image''), im_isEdited = UseDefault\<rparr>"
  have h1: "(1::nat) \<in> set (map c_id (conversations example_store))"
    by (simp add: example_defs)
  have h2: "(3::nat) \<in> set (map u_id (users example_store))"
    by (simp add: example_defs)
  have h3: "(7::nat) \<notin> set (map u_id (users example_store))"
    by (simp add: example_defs)
  have f: "fresh_id (map m_id (messages example_store)) = 4"
    by (simp add: fresh_id_def example_defs)
  have c: "conversations example_store = [example_direct, example_group]"
    by (simp add: example_store_def)
  from createMessage_frame[of ?im example_store 40 45] h1 h2 obtain s' newMessage where
    r: "createMessage example_store 40 45 ?im = Inr (s', newMessage)"
       "newMessage = \<lparr>m_id = 4, m_conversationId = 1, senderId = 3, content = ''photo'',
                  messageType = Some ''image'', isEdited = Some False,
                  m_createdAt = 40, m_updatedAt = 40\<rparr>"
       "messages s' = messages example_store @ [newMessage]"
       "list_all2 (\<lambda>c c'. if c_id c = im_conversationId ?im
                              then c' = c\<lparr>c_updatedAt := 45\<rparr> else c' = c)
             (conversations example_store) (conversations s')"
       "users s' = users example_store"
       "conversationMembers s' = conversationMembers example_store"
       "messageReadReceipts s' = messageReadReceipts example_store"
    unfolding f by (auto simp del: set_map)
  from r(4) have cs: "conversations s' = [example_direct\<lparr>c_updatedAt := 45\<rparr>, example_group]"
    by (auto simp: c list_all2_Cons1 example_direct_def example_group_def)
  from createMessage_frame[of ?im' example_store 40 45] h3
  have e: "createMessage example_store 40 45 ?im' = Inl ForeignKeyViolation"
    by (simp del: set_map)
  have "\<exists>s'. createMessage example_store 40 45 ?im =
        Inr (s', \<lparr>m_id = 4, m_conversationId = 1, senderId = 3, content = ''photo'',
                  messageType = Some ''image'', isEdited = Some False,
                  m_createdAt = 40, m_updatedAt = 40\<rparr>) \<and>
      messages s' = messages example_store @
        [\<lparr>m_id = 4, m_conversationId = 1, senderId = 3, content = ''photo'',
          messageType = Some ''image'', isEdited = Some False,
          m_createdAt = 40, m_updatedAt = 40\<rparr>] \<and>
      conversations s' = [example_direct\<lparr>c_updatedAt := 45\<rparr>, example_group] \<and>
      users s' = users example_store \<and>
      conversationMembers s' = conversationMembers example_store \<and>
      messageReadReceipts s' = messageReadReceipts example_store"
    using r cs by (intro exI[of _ s']) simp
  with h1 h2 h3 e show ?thesis by blast
qed

section \<open>markMessageAsRead\<close>

text \<open>
  A receipt for an existing message and an existing user is always appended: the
  generated \<open>id\<close> never conflicts, so \<open>onConflictDoNothing\<close> never skips the row.
\<close>

lemma markMessageAsRead_appends:
  assumes "messageId \<in> set (map m_id (messages s))" and "userId \<in> set (map u_id (users s))"
  shows "markMessageAsRead s now messageId userId =
           Inr (s\<lparr>messageReadReceipts := messageReadReceipts s @
                  [\<lparr>r_id = fresh_id (map r_id (messageReadReceipts s)), r_messageId = messageId,
                    r_userId = userId, readAt = now\<rparr>]\<rparr>)"
  using assms fresh_id_notin[of "map r_id (messageReadReceipts s)"]
  by (simp add: markMessageAsRead_def Let_def conflicts_def del: set_map)

text \<open>
  So every further call for the same pair adds a row: after two calls the store holds two
  more receipt rows of the pair than before.
\<close>

lemma markMessageAsRead_twice:
  assumes "messageId \<in> set (map m_id (messages s))" and "userId \<in> set (map u_id (users s))"
  shows "\<exists>s1 s2. markMessageAsRead s now messageId userId = Inr s1 \<and>
           markMessageAsRead s1 now' messageId userId = Inr s2 \<and>
           length (filter (\<lambda>r. r_messageId r = messageId \<and> r_userId r = userId)
                     (messageReadReceipts s2)) =
           length (filter (\<lambda>r. r_messageId r = messageId \<and> r_userId r = userId)
                     (messageReadReceipts s)) + 2"
proof -
  let ?s1 = "s\<lparr>messageReadReceipts := messageReadReceipts s @
                  [\<lparr>r_id = fresh_id (map r_id (messageReadReceipts s)), r_messageId = messageId,
                    r_userId = userId, readAt = now\<rparr>]\<rparr>"
  have 1: "markMessageAsRead s now messageId userId = Inr ?s1"
    using assms by (rule markMessageAsRead_appends)
  have "messageId \<in> set (map m_id (messages ?s1))" "userId \<in> set (map u_id (users ?s1))"
    using assms by simp_all
  from markMessageAsRead_appends[OF this, of now'] 1 show ?thesis
    by simp
qed

text \<open>
  Claim C2, evaluated on the code. User 1 has no receipt for message 3 of the example
  store. Two calls of \<open>markMessageAsRead\<close> for (message 3, user 1) both succeed, and
  the store then holds two receipt rows for the pair, not one.
\<close>

theorem markMessageAsRead_twice_two_receipts:
  "\<exists>s1 s2. markMessageAsRead example_store 30 3 1 = Inr s1 \<and>
           markMessageAsRead s1 31 3 1 = Inr s2 \<and>
           length (filter (\<lambda>r. r_messageId r = 3 \<and> r_userId r = 1)
                     (messageReadReceipts example_store)) = 0 \<and>
           length (filter (\<lambda>r. r_messageId r = 3 \<and> r_userId r = 1)
                     (messageReadReceipts s2)) = 2"
  by (simp add: markMessageAsRead_def Let_def conflicts_def fresh_id_def example_defs)

section \<open>The membership check of the conversation-scoped handlers\<close>

text \<open>
  The two handlers under \<open>/api/conversations/:id/messages\<close> check the membership: a
  user who is not a member gets 403 from the GET handler, and from the POST handler 403
  (or 500 when the body does not parse), and the store stays as it was.
\<close>

lemma getConversationMembers_total: "getConversationMembers s conversationId (member_rows s conversationId)"
  by (simp add: getConversationMembers_def)

lemma some_member:
  assumes "getConversationMembers s conversationId members"
  shows "list_ex (\<lambda>member. u_id member = userId) members \<longleftrightarrow> isMember s conversationId userId"
proof -
  have "set members = set (member_rows s conversationId)"
    using assms unfolding getConversationMembers_def by (rule mset_eq_setD)
  then show ?thesis by (simp add: isMember_def list_ex_iff)
qed

lemma get_conversation_messages_denied:
  assumes "\<not> isMember s conversationId userId"
  shows "get_conversation_messages s userId conversationId limit out \<longleftrightarrow>
     out = Status 403 ''Access denied''"
proof
  assume "get_conversation_messages s userId conversationId limit out"
  then obtain members where m: "getConversationMembers s conversationId members"
    and o: "if \<not> list_ex (\<lambda>member. u_id member = userId) members
         then out = Status 403 ''Access denied''
         else \<exists>res. getConversationMessages s conversationId
                       (Some (case limit of None \<Rightarrow> 50 | Some l \<Rightarrow> l)) res \<and>
                    out = (case res of
                             Inl e \<Rightarrow> Status 500 ''Failed to fetch messages''
                           | Inr ms \<Rightarrow> Json ms)"
    unfolding get_conversation_messages_def by blast
  from some_member[OF m] assms have "\<not> list_ex (\<lambda>member. u_id member = userId) members"
    by simp
  with o show "out = Status 403 ''Access denied''" by simp
next
  assume out: "out = Status 403 ''Access denied''"
  from some_member[OF getConversationMembers_total] assms
  have "\<not> list_ex (\<lambda>member. u_id member = userId) (member_rows s conversationId)"
    by simp
  then show "get_conversation_messages s userId conversationId limit out"
    unfolding get_conversation_messages_def
    using getConversationMembers_total out
    by (intro exI[of _ "member_rows s conversationId"]) simp
qed

lemma post_conversation_messages_denied:
  assumes "\<not> isMember s conversationId userId"
      and "post_conversation_messages s now userId conversationId body out"
  shows "fst out = s \<and>
   snd out = (if sb_content body = None then Status 500 ''Failed to send message''
              else Status 403 ''Access denied'')"
proof (cases "sb_content body")
  case None
  with assms(2) show ?thesis by (simp add: post_conversation_messages_def)
next
  case (Some c)
  with assms(2) obtain members where m: "getConversationMembers s conversationId members"
    and o: "list_ex (\<lambda>member. u_id member = userId) members \<or>
            out = (s, Status 403 ''Access denied'')"
    unfolding post_conversation_messages_def by (auto split: if_splits)
  from some_member[OF m] assms(1) o have "out = (s, Status 403 ''Access denied'')"
    by simp
  with Some show ?thesis by simp
qed

text \<open>
  Claim C8, evaluated on the code. User 3 is not a member of conversation 1, which
  holds message 3. The handler of \<open>POST /api/messages/3/read\<close>, called for user 3,
  does not look at the membership: it answers with success and leaves a receipt row for
  (message 3, user 3) in the store.
\<close>

theorem post_message_read_by_non_member:
  "\<not> isMember example_store 1 3 \<and>
   example_message 3 2 9 \<in> set (messages example_store) \<and>
   m_conversationId (example_message 3 2 9) = 1 \<and>
   post_message_read example_store 30 3 3 =
     (example_store\<lparr>messageReadReceipts := messageReadReceipts example_store @
         [\<lparr>r_id = 3, r_messageId = 3, r_userId = 3, readAt = 30\<rparr>]\<rparr>, Json ())"
  by (simp add: post_message_read_def markMessageAsRead_def Let_def conflicts_def fresh_id_def
      isMember_def member_rows_def inner_join_def example_defs)

section \<open>POST /api/conversations: what is persisted\<close>

text \<open>
  The loop over \<open>memberIds\<close> appends one membership row per requested member other
  than the creator, in order, and stops at the first one that is not a stored user; the
  rows appended before stay.
\<close>

lemma add_other_members_result:
  assumes "conversationId \<in> set (map c_id (conversations s))"
  shows "\<exists>new. add_other_members s now conversationId userId memberIds =
           (s\<lparr>conversationMembers := conversationMembers s @ new\<rparr>,
            if list_all (\<lambda>m. m \<in> set (map u_id (users s))) (filter (\<lambda>m. m \<noteq> userId) memberIds)
            then None else Some ForeignKeyViolation) \<and>
         map cm_userId new =
           takeWhile (\<lambda>m. m \<in> set (map u_id (users s))) (filter (\<lambda>m. m \<noteq> userId) memberIds) \<and>
         list_all (\<lambda>cm. cm_conversationId cm = conversationId) new"
  using assms
proof (induction memberIds arbitrary: s)
  case Nil
  then show ?case by simp
next
  case (Cons memberId memberIds)
  show ?case
  proof (cases "memberId \<noteq> userId \<and> memberId \<in> set (map u_id (users s))")
    case True
    define n where "n = \<lparr>cm_id = fresh_id (map cm_id (conversationMembers s)),
                  cm_conversationId = conversationId, cm_userId = memberId, joinedAt = now\<rparr>"
    define s' where "s' = s\<lparr>conversationMembers := conversationMembers s @ [n]\<rparr>"
    have add: "addConversationMember s now conversationId memberId = Inr (s', n)"
      using True Cons.prems by (simp add: addConversationMember_def Let_def s'_def n_def del: set_map)
    have "conversationId \<in> set (map c_id (conversations s'))"
      using Cons.prems by (simp add: s'_def)
    from Cons.IH[OF this] obtain new where
      new: "add_other_members s' now conversationId userId memberIds =
           (s'\<lparr>conversationMembers := conversationMembers s' @ new\<rparr>,
            if list_all (\<lambda>m. m \<in> set (map u_id (users s'))) (filter (\<lambda>m. m \<noteq> userId) memberIds)
            then None else Some ForeignKeyViolation)"
       "map cm_userId new =
           takeWhile (\<lambda>m. m \<in> set (map u_id (users s'))) (filter (\<lambda>m. m \<noteq> userId) memberIds)"
       "list_all (\<lambda>cm. cm_conversationId cm = conversationId) new"
      by blast
    show ?thesis
      apply (rule exI[of _ "n # new"])
      using True add new by (simp add: s'_def n_def del: set_map)
  next
    case False
    show ?thesis
    proof (cases "memberId = userId")
      case True
      from Cons.IH[OF Cons.prems] show ?thesis using True by simp
    next
      case neq: False
      with False have "memberId \<notin> set (map u_id (users s))" by simp
      then show ?thesis
        using neq by (intro exI[of _ "[]"]) (simp add: addConversationMember_def del: set_map)
    qed
  qed
qed

text \<open>
  The whole handler: the conversation row is appended, then the membership rows of the
  creator and of the requested members, up to the first that is not a stored user.
\<close>

lemma post_conversations_result:
  fixes s :: store and now :: timestamp and userId :: ident and body :: createConversationBody
  assumes "b_memberIds body \<noteq> []"
  defines "c \<equiv> snd (createConversation s now \<lparr>ic_name = b_name body, ic_isGroup = b_isGroup body\<rparr>)"
  defines "targets \<equiv> userId # filter (\<lambda>m. m \<noteq> userId) (b_memberIds body)"
  shows "\<exists>new. post_conversations s now userId body =
           (s\<lparr>conversations := conversations s @ [c],
              conversationMembers := conversationMembers s @ new\<rparr>,
            if list_all (\<lambda>m. m \<in> set (map u_id (users s))) targets
            then Json c else Status 500 ''Failed to create conversation'') \<and>
         map cm_userId new = takeWhile (\<lambda>m. m \<in> set (map u_id (users s))) targets \<and>
         list_all (\<lambda>cm. cm_conversationId cm = c_id c) new"
proof -
  define s1 where "s1 = s\<lparr>conversations := conversations s @ [c]\<rparr>"
  have cc: "createConversation s now \<lparr>ic_name = b_name body, ic_isGroup = b_isGroup body\<rparr> = (s1, c)"
    by (simp add: createConversation_def Let_def c_def s1_def)
  have cin: "c_id c \<in> set (map c_id (conversations s1))"
    by (simp add: s1_def)
  show ?thesis
  proof (cases "userId \<in> set (map u_id (users s))")
    case False
    then have "addConversationMember s1 now (c_id c) userId = Inl ForeignKeyViolation"
      by (simp add: addConversationMember_def s1_def del: set_map)
    then show ?thesis
      using False assms(1) cc
      by (intro exI[of _ "[]"]) (simp add: post_conversations_def targets_def s1_def del: set_map)
  next
    case True
    define n where "n = \<lparr>cm_id = fresh_id (map cm_id (conversationMembers s1)),
                  cm_conversationId = c_id c, cm_userId = userId, joinedAt = now\<rparr>"
    define s2 where "s2 = s1\<lparr>conversationMembers := conversationMembers s1 @ [n]\<rparr>"
    have add: "addConversationMember s1 now (c_id c) userId = Inr (s2, n)"
      using True cin by (simp add: addConversationMember_def Let_def s2_def n_def s1_def del: set_map)
    have "c_id c \<in> set (map c_id (conversations s2))"
      by (simp add: s2_def s1_def)
    from add_other_members_result[OF this, of now userId "b_memberIds body"]
    obtain new where new:
      "add_other_members s2 now (c_id c) userId (b_memberIds body) =
           (s2\<lparr>conversationMembers := conversationMembers s2 @ new\<rparr>,
            if list_all (\<lambda>m. m \<in> set (map u_id (users s2))) (filter (\<lambda>m. m \<noteq> userId) (b_memberIds body))
            then None else Some ForeignKeyViolation)"
      "map cm_userId new =
           takeWhile (\<lambda>m. m \<in> set (map u_id (users s2))) (filter (\<lambda>m. m \<noteq> userId) (b_memberIds body))"
      "list_all (\<lambda>cm. cm_conversationId cm = c_id c) new"
      by blast
    have u2: "users s2 = users s" by (simp add: s2_def s1_def)
    show ?thesis
      apply (rule exI[of _ "n # new"])
      using True assms(1) cc add new
      by (simp add: post_conversations_def targets_def u2 del: set_map)
         (simp add: s2_def s1_def n_def)
  qed
qed

text \<open>
  Claim C3, as stated, at a concrete input: user 1 asks for a conversation with users 2,
  9 and 3, and user 9 does not exist. The handler answers 500, and the store it leaves
  behind holds the new conversation 3 with the memberships of users 1 and 2 only.
\<close>

theorem post_conversations_not_atomic:
  "snd (post_conversations example_store 40 1 example_body_unknown) = Status 500 ''Failed to create conversation'' \<and>
   map c_id (conversations (fst (post_conversations example_store 40 1 example_body_unknown))) = [1, 2, 3] \<and>
   map cm_userId (filter (\<lambda>cm. cm_conversationId cm = 3)
       (conversationMembers (fst (post_conversations example_store 40 1 example_body_unknown)))) = [1, 2] \<and>
   b_memberIds example_body_unknown = [2, 9, 3]"
  by (simp add: post_conversations_def createConversation_def addConversationMember_def Let_def fresh_id_def or_default_def example_body_unknown_def example_defs)

text \<open>
  Claim C3, amended. The creation is a sequence of separate inserts with no transaction.
  For a body with at least one member id, the handler leaves behind the new conversation
  row and, of the users it attaches in order (the creator, then the requested members
  other than the creator), the membership rows of those before the first one that is not
  a stored user; it answers with the conversation when every insert went through and
  with 500 otherwise, and the other tables are untouched.
\<close>

theorem post_conversations_keeps_partial_writes:
  assumes "b_memberIds body \<noteq> []"
      and "post_conversations s now userId body = (s', resp)"
  shows "\<exists>c new.
           conversations s' = conversations s @ [c] \<and>
           conversationMembers s' = conversationMembers s @ new \<and>
           list_all (\<lambda>cm. cm_conversationId cm = c_id c) new \<and>
           map cm_userId new =
             takeWhile (\<lambda>m. m \<in> set (map u_id (users s)))
               (userId # filter (\<lambda>m. m \<noteq> userId) (b_memberIds body)) \<and>
           resp = (if list_all (\<lambda>m. m \<in> set (map u_id (users s)))
                        (userId # filter (\<lambda>m. m \<noteq> userId) (b_memberIds body))
                   then Json c else Status 500 ''Failed to create conversation'') \<and>
           users s' = users s \<and> messages s' = messages s \<and>
           messageReadReceipts s' = messageReadReceipts s"
proof -
  from post_conversations_result[OF assms(1), of s now userId]
  obtain new where new:
    "post_conversations s now userId body =
       (s\<lparr>conversations := conversations s @
             [snd (createConversation s now \<lparr>ic_name = b_name body, ic_isGroup = b_isGroup body\<rparr>)],
          conversationMembers := conversationMembers s @ new\<rparr>,
        if list_all (\<lambda>m. m \<in> set (map u_id (users s)))
             (userId # filter (\<lambda>m. m \<noteq> userId) (b_memberIds body))
        then Json (snd (createConversation s now \<lparr>ic_name = b_name body, ic_isGroup = b_isGroup body\<rparr>))
        else Status 500 ''Failed to create conversation'')"
    "map cm_userId new = takeWhile (\<lambda>m. m \<in> set (map u_id (users s)))
             (userId # filter (\<lambda>m. m \<noteq> userId) (b_memberIds body))"
    "list_all (\<lambda>cm. cm_conversationId cm =
        c_id (snd (createConversation s now \<lparr>ic_name = b_name body, ic_isGroup = b_isGroup body\<rparr>))) new"
    by blast
  let ?c = "snd (createConversation s now \<lparr>ic_name = b_name body, ic_isGroup = b_isGroup body\<rparr>)"
  from new(1) assms(2) have
    s': "s' = s\<lparr>conversations := conversations s @ [?c],
          conversationMembers := conversationMembers s @ new\<rparr>"
    and resp: "resp = (if list_all (\<lambda>m. m \<in> set (map u_id (users s)))
             (userId # filter (\<lambda>m. m \<noteq> userId) (b_memberIds body))
        then Json ?c else Status 500 ''Failed to create conversation'')"
    by simp_all
  show ?thesis
    apply (rule exI[of _ ?c], rule exI[of _ new])
    using new(2,3) resp by (simp add: s' del: set_map)
qed

theorem post_conversations_keeps_partial_writes_witness:
  "b_memberIds example_body_self \<noteq> [] \<and>
   (\<exists>c new.
      conversations (fst (post_conversations example_store 40 1 example_body_self)) =
        conversations example_store @ [c] \<and>
      conversationMembers (fst (post_conversations example_store 40 1 example_body_self)) =
        conversationMembers example_store @ new \<and>
      list_all (\<lambda>cm. cm_conversationId cm = c_id c) new \<and>
      map cm_userId new = [1, 2] \<and>
      snd (post_conversations example_store 40 1 example_body_self) = Json c)"
proof -
  have h1: "b_memberIds example_body_self \<noteq> []"
    by (simp add: example_body_self_def)
  have h2: "post_conversations example_store 40 1 example_body_self =
      (fst (post_conversations example_store 40 1 example_body_self),
       snd (post_conversations example_store 40 1 example_body_self))"
    by simp
  have u: "map u_id (users example_store) = [1, 2, 3, 4]"
    by (simp add: example_defs)
  from post_conversations_keeps_partial_writes[OF h1 h2] show ?thesis
    using h1 by (simp add: u example_body_self_def) (elim exE conjE, intro exI conjI, assumption+)
qed

text \<open>
  Claim C10. When \<open>POST /api/conversations\<close> answers with the created conversation,
  the store holds exactly one membership row of the creator in it, whether or not the
  creator's id is among the submitted \<open>memberIds\<close>.
\<close>

theorem post_conversations_creator_once:
  assumes "wf_store s"
      and "post_conversations s now userId body = (s', Json c)"
  shows "length (filter (\<lambda>cm. cm_conversationId cm = c_id c \<and> cm_userId cm = userId)
                   (conversationMembers s')) = 1"
proof -
  have ne: "b_memberIds body \<noteq> []"
    using assms(2) by (auto simp: post_conversations_def)
  let ?targets = "userId # filter (\<lambda>m. m \<noteq> userId) (b_memberIds body)"
  let ?c = "snd (createConversation s now \<lparr>ic_name = b_name body, ic_isGroup = b_isGroup body\<rparr>)"
  from post_conversations_result[OF ne, of s now userId]
  obtain new where new:
    "post_conversations s now userId body =
       (s\<lparr>conversations := conversations s @ [?c],
          conversationMembers := conversationMembers s @ new\<rparr>,
        if list_all (\<lambda>m. m \<in> set (map u_id (users s))) ?targets
        then Json ?c
        else Status 500 ''Failed to create conversation'')"
    "map cm_userId new = takeWhile (\<lambda>m. m \<in> set (map u_id (users s))) ?targets"
    "list_all (\<lambda>cm. cm_conversationId cm = c_id ?c) new"
    by blast
  from new(1) assms(2) have all: "list_all (\<lambda>m. m \<in> set (map u_id (users s))) ?targets"
    and c: "c = ?c"
    and s': "conversationMembers s' = conversationMembers s @ new"
    by (auto split: if_splits)
  have tw: "map cm_userId new = ?targets"
    using all new(2) by (metis (mono_tags, lifting) Ball_set takeWhile_eq_all_conv)
  have cid: "c_id c = fresh_id (map c_id (conversations s))"
    by (simp add: c createConversation_def Let_def)
  have old: "filter (\<lambda>cm. cm_conversationId cm = c_id c \<and> cm_userId cm = userId)
               (conversationMembers s) = []"
  proof -
    have "\<forall>cm\<in>set (conversationMembers s). cm_conversationId cm \<in> set (map c_id (conversations s))"
      using assms(1) by (simp add: wf_store_def foreign_keys_def list_all_iff)
    then have "\<forall>cm\<in>set (conversationMembers s). cm_conversationId cm \<noteq> c_id c"
      using fresh_id_notin[of "map c_id (conversations s)"] cid by metis
    then show ?thesis by (simp add: filter_empty_conv)
  qed
  have "filter (\<lambda>cm. cm_conversationId cm = c_id c \<and> cm_userId cm = userId) new
        = filter (\<lambda>cm. cm_userId cm = userId) new"
    using new(3) c by (intro filter_cong) (auto simp: list_all_iff)
  moreover have "length (filter (\<lambda>cm. cm_userId cm = userId) new)
        = length (filter (\<lambda>u. u = userId) (map cm_userId new))"
    by (simp add: filter_map comp_def)
  moreover have "length (filter (\<lambda>u. u = userId) ?targets) = 1"
    by (simp add: filter_empty_conv)
  ultimately show ?thesis
    using old tw s' by simp
qed

theorem post_conversations_creator_once_witness:
  "wf_store example_store \<and>
   post_conversations example_store 40 1 example_body_self =
     (fst (post_conversations example_store 40 1 example_body_self),
      Json \<lparr>c_id = 3, c_name = None, isGroup = Some False, c_createdAt = 40, c_updatedAt = 40\<rparr>) \<and>
   length (filter (\<lambda>cm. cm_conversationId cm = 3 \<and> cm_userId cm = 1)
      (conversationMembers (fst (post_conversations example_store 40 1 example_body_self)))) = 1"
proof -
  have h: "post_conversations example_store 40 1 example_body_self =
     (fst (post_conversations example_store 40 1 example_body_self),
      Json \<lparr>c_id = 3, c_name = None, isGroup = Some False, c_createdAt = 40, c_updatedAt = 40\<rparr>)"
    by (simp add: post_conversations_def createConversation_def addConversationMember_def Let_def
        fresh_id_def or_default_def example_body_self_def example_defs)
  from post_conversations_creator_once[OF wf_example_store h] show ?thesis
    using wf_example_store h by simp
qed

section \<open>Answers of ordered queries\<close>

text \<open>
  An ordered query always has an answer; all its answers hold the same rows and list
  the same keys in the same order, and when the keys tell the rows apart there is only
  one answer.
\<close>

lemma order_by_desc_total: "order_by_desc key rows (rev (sort_key key rows))"
proof -
  have "sorted (map key (sort_key key rows))" by (rule sorted_sort_key)
  then have "sorted_wrt (\<lambda>a b. key a \<le> key b) (sort_key key rows)"
    by (simp only: sorted_map)
  then show ?thesis by (simp add: order_by_desc_def sorted_wrt_rev)
qed

lemma order_by_desc_limit_total:
  "order_by_desc_limit key n rows (take n (rev (sort_key key rows)))"
  unfolding order_by_desc_limit_def using order_by_desc_total by blast

lemma order_by_desc_set: "order_by_desc key rows out \<Longrightarrow> set out = set rows"
  unfolding order_by_desc_def by (blast dest: mset_eq_setD)

lemma order_by_desc_length: "order_by_desc key rows out \<Longrightarrow> length out = length rows"
  unfolding order_by_desc_def by (blast dest: mset_eq_length)

lemma order_by_desc_Nil [simp]: "order_by_desc key [] out \<longleftrightarrow> out = []"
  by (auto simp: order_by_desc_def)

lemma order_by_desc_limit_Nil [simp]: "order_by_desc_limit key n [] out \<longleftrightarrow> out = []"
  by (auto simp: order_by_desc_limit_def)

lemma order_by_desc_keys:
  assumes "order_by_desc key rows out1" and "order_by_desc key rows out2"
  shows "map key out1 = map key out2"
proof -
  have s1: "sorted (rev (map key out1))" and s2: "sorted (rev (map key out2))"
    using assms by (simp_all add: order_by_desc_def sorted_wrt_rev sorted_wrt_map)
  have "mset out1 = mset out2"
    using assms by (simp add: order_by_desc_def)
  then have "mset (map key out1) = mset (map key out2)"
    by (metis mset_map)
  then have "mset (rev (map key out1)) = mset (rev (map key out2))"
    by simp
  then have "sort (rev (map key out2)) = rev (map key out1)"
    using s1 by (rule properties_for_sort)
  then have "rev (map key out1) = rev (map key out2)"
    using s2 by (simp add: sorted_sort_id)
  then show ?thesis by simp
qed

lemma order_by_desc_unique:
  assumes "order_by_desc key rows out1" and "order_by_desc key rows out2"
      and "inj_on key (set rows)"
  shows "out1 = out2"
proof -
  have "map key out1 = map key out2" using assms(1,2) by (rule order_by_desc_keys)
  moreover have "inj_on key (set out1 \<union> set out2)"
    using assms by (simp add: order_by_desc_set)
  ultimately show ?thesis by (simp add: inj_on_map_eq_map)
qed


lemma order_by_desc_limitI:
  "order_by_desc key rows ordered \<Longrightarrow> out = take n ordered \<Longrightarrow> order_by_desc_limit key n rows out"
  unfolding order_by_desc_limit_def by blast

section \<open>The conversation list\<close>

text \<open>
  The left join with the \<open>IS NULL\<close> test counts the messages of the conversation that
  another user sent and for which the user has no receipt row.
\<close>

lemma unread_count_filter:
  "unread_count s conversationId userId =
     length (filter (\<lambda>m. m_conversationId m = conversationId \<and> senderId m \<noteq> userId \<and>
                         \<not> (\<exists>r\<in>set (messageReadReceipts s). r_messageId r = m_id m \<and> r_userId r = userId))
               (messages s))"
proof -
  have "length (filter (\<lambda>(m, r). m_conversationId m = conversationId \<and> r = None \<and> senderId m \<noteq> userId)
               (left_join ms rs (\<lambda>m r. r_messageId r = m_id m \<and> r_userId r = userId))) =
     length (filter (\<lambda>m. m_conversationId m = conversationId \<and> senderId m \<noteq> userId \<and>
                         \<not> (\<exists>r\<in>set rs. r_messageId r = m_id m \<and> r_userId r = userId)) ms)"
    for ms :: "message list" and rs :: "messageReadReceipt list"
  proof (induction ms)
    case Nil
    then show ?case by (simp add: left_join_def)
  next
    case (Cons m ms)
    show ?case
    proof (cases "filter (\<lambda>r. r_messageId r = m_id m \<and> r_userId r = userId) rs")
      case Nil
      then have "\<not> (\<exists>r\<in>set rs. r_messageId r = m_id m \<and> r_userId r = userId)"
        by (simp add: filter_empty_conv)
      with Nil Cons.IH show ?thesis by (simp add: left_join_def)
    next
      case (Cons r rs')
      then have "r \<in> set (filter (\<lambda>r. r_messageId r = m_id m \<and> r_userId r = userId) rs)"
        by simp
      then have ex: "\<exists>r\<in>set rs. r_messageId r = m_id m \<and> r_userId r = userId"
        by auto
      have "filter (\<lambda>(m, r). m_conversationId m = conversationId \<and> r = None \<and> senderId m \<noteq> userId)
              (map (\<lambda>b. (m, Some b)) (r # rs')) = []"
        by (simp add: filter_empty_conv)
      with Cons Cons.IH ex show ?thesis by (simp add: left_join_def)
    qed
  qed
  then show ?thesis by (simp add: unread_count_def)
qed

text \<open>The queries of \<open>getUserConversations\<close> always have an answer.\<close>

lemma set_inner_join:
  "set (inner_join as bs on) = {(a, b). a \<in> set as \<and> b \<in> set bs \<and> on a b}"
  by (auto simp: inner_join_def)

lemma set_user_conversations:
  "set (user_conversations s U) =
     {c \<in> set (conversations s).
        \<exists>cm\<in>set (conversationMembers s). cm_conversationId cm = c_id c \<and> cm_userId cm = U}"
  by (auto simp: user_conversations_def set_inner_join image_iff)

lemma last_message_exists: "\<exists>lm. last_message s conversationId lm"
proof -
  let ?ms = "filter (\<lambda>m. m_conversationId m = conversationId) (messages s)"
  let ?o = "rev (sort_key m_createdAt ?ms)"
  let ?lm = "case ?o of [] \<Rightarrow> None | m # ms \<Rightarrow> Some m"
  have "(case ?lm of None \<Rightarrow> [] | Some m \<Rightarrow> [m]) = take 1 ?o"
    by (cases ?o) simp_all
  then have "last_message s conversationId ?lm"
    unfolding last_message_def
    by (metis order_by_desc_limitI order_by_desc_total)
  then show ?thesis ..
qed

lemma conversation_entry_exists: "\<exists>e. conv e = c \<and> conversation_entry s U e"
proof -
  obtain lm where "last_message s (c_id c) lm" using last_message_exists by blast
  then have "conversation_entry s U
     \<lparr>conv = c, lastMessage = lm, unreadCount = unread_count s (c_id c) U,
      otherMembers = other_members s (c_id c) U\<rparr>"
    by (simp add: conversation_entry_def)
  then show ?thesis by (intro exI[of _ "\<lparr>conv = c, lastMessage = lm, unreadCount = unread_count s (c_id c) U,
      otherMembers = other_members s (c_id c) U\<rparr>"]) simp
qed

lemma entries_exist: "\<exists>es. map conv es = cs \<and> list_all (conversation_entry s U) es"
proof (induction cs)
  case Nil
  show ?case by simp
next
  case (Cons c cs)
  then obtain es where "map conv es = cs" "list_all (conversation_entry s U) es" by blast
  moreover obtain e where "conv e = c" "conversation_entry s U e"
    using conversation_entry_exists by blast
  ultimately show ?case by (intro exI[of _ "e # es"]) simp
qed

lemma getUserConversations_total: "\<exists>result. getUserConversations s U result"
proof -
  obtain es where "map conv es = rev (sort_key c_updatedAt (user_conversations s U))"
     "list_all (conversation_entry s U) es"
    using entries_exist by blast
  then have "getUserConversations s U es"
    by (simp add: getUserConversations_def order_by_desc_total)
  then show ?thesis ..
qed

lemma getUserConversations_convs:
  "getUserConversations s U result \<Longrightarrow> set (map conv result) = set (user_conversations s U)"
  unfolding getUserConversations_def by (blast dest: order_by_desc_set)

lemma getUserConversations_unread:
  "getUserConversations s U result \<Longrightarrow> e \<in> set result \<Longrightarrow>
   unreadCount e = unread_count s (c_id (conv e)) U"
  by (simp add: getUserConversations_def list_all_iff conversation_entry_def)

lemma last_message_none:
  assumes "last_message s conversationId lm"
      and "\<forall>m\<in>set (messages s). m_conversationId m \<noteq> conversationId"
  shows "lm = None"
proof -
  have "filter (\<lambda>m. m_conversationId m = conversationId) (messages s) = []"
    using assms(2) by (simp add: filter_empty_conv)
  with assms(1) show ?thesis by (simp add: last_message_def split: option.splits)
qed

text \<open>The entries of the example data are answers.\<close>

lemmas entry_defs = example_entry_direct_def example_entry_group_def example_entry_group3_def

lemma example_user_conversations:
  "user_conversations example_store 1 = [example_direct, example_group]"
  "user_conversations example_store 3 = [example_group]"
  "user_conversations example_store 4 = []"
  by (simp_all add: user_conversations_def inner_join_def example_defs)

lemma example_last_message:
  "last_message example_store 1 (Some (example_message 3 2 9))"
  "last_message example_store 2 None"
proof -
  have "order_by_desc m_createdAt
          (filter (\<lambda>m. m_conversationId m = 1) (messages example_store))
          [example_message 3 2 9, example_message 2 2 7, example_message 1 1 5]"
    by (simp add: order_by_desc_def example_defs)
  then show "last_message example_store 1 (Some (example_message 3 2 9))"
    unfolding last_message_def by (rule order_by_desc_limitI) simp
  show "last_message example_store 2 None"
    by (simp add: last_message_def example_defs)
qed

lemma example_entries:
  "conversation_entry example_store 1 example_entry_direct"
  "conversation_entry example_store 1 example_entry_group"
  "conversation_entry example_store 3 example_entry_group3"
  using example_last_message
  by (simp_all add: conversation_entry_def entry_defs unread_count_def left_join_def
      other_members_def inner_join_def example_defs)

lemma example_conv:
  "conv example_entry_direct = example_direct"
  "conv example_entry_group = example_group"
  "conv example_entry_group3 = example_group"
  "c_updatedAt example_direct = 20"
  "c_updatedAt example_group = 20"
  "c_id example_direct = 1"
  "c_id example_group = 2"
  by (simp_all add: entry_defs example_direct_def example_group_def)

lemma example_answers:
  "getUserConversations example_store 1 [example_entry_direct, example_entry_group]"
  "getUserConversations example_store 1 [example_entry_group, example_entry_direct]"
  "getUserConversations example_store 3 [example_entry_group3]"
  by (simp_all add: getUserConversations_def example_user_conversations order_by_desc_def
      example_conv example_entries del: One_nat_def)

text \<open>
  Claim C1. \<open>getUserConversations\<close> always has an answer. In every answer for user
  \<open>U\<close>, each conversation that has a membership row of \<open>U\<close> has an entry, and the
  \<open>unreadCount\<close> of every entry is the number of messages of its conversation that
  were sent by another user and have no receipt row for \<open>U\<close>; it is 0 once \<open>U\<close> has
  a receipt for every message of the conversation. Messages are counted as rows of a
  table with a primary key.
\<close>

theorem unreadCount_correct:
  assumes "distinct (map m_id (messages s))"
  shows "(\<exists>result. getUserConversations s U result) \<and>
         (\<forall>result. getUserConversations s U result \<longrightarrow>
            (\<forall>C\<in>set (conversations s).
               (\<exists>cm\<in>set (conversationMembers s). cm_conversationId cm = c_id C \<and> cm_userId cm = U) \<longrightarrow>
               (\<exists>e\<in>set result. conv e = C)) \<and>
            (\<forall>e\<in>set result.
               unreadCount e =
                 card {m \<in> set (messages s).
                        m_conversationId m = c_id (conv e) \<and> senderId m \<noteq> U \<and>
                        \<not> (\<exists>r\<in>set (messageReadReceipts s). r_messageId r = m_id m \<and> r_userId r = U)} \<and>
               ((\<forall>m\<in>set (messages s). m_conversationId m = c_id (conv e) \<longrightarrow>
                   (\<exists>r\<in>set (messageReadReceipts s). r_messageId r = m_id m \<and> r_userId r = U)) \<longrightarrow>
                unreadCount e = 0)))"
proof (intro conjI allI impI ballI)
  show "\<exists>result. getUserConversations s U result" by (rule getUserConversations_total)
next
  fix result C
  assume r: "getUserConversations s U result" and C: "C \<in> set (conversations s)"
    and m: "\<exists>cm\<in>set (conversationMembers s). cm_conversationId cm = c_id C \<and> cm_userId cm = U"
  from C m have "C \<in> set (user_conversations s U)" by (simp add: set_user_conversations)
  with getUserConversations_convs[OF r] show "\<exists>e\<in>set result. conv e = C"
    by (metis (no_types, lifting) image_iff list.set_map)
next
  fix result e
  assume r: "getUserConversations s U result" and e: "e \<in> set result"
  let ?P = "\<lambda>m. m_conversationId m = c_id (conv e) \<and> senderId m \<noteq> U \<and>
              \<not> (\<exists>r\<in>set (messageReadReceipts s). r_messageId r = m_id m \<and> r_userId r = U)"
  have d: "distinct (messages s)" using assms by (rule distinct_map[THEN iffD1, THEN conjunct1])
  have "unreadCount e = length (filter ?P (messages s))"
    using getUserConversations_unread[OF r e] by (simp add: unread_count_filter)
  also have "\<dots> = card (set (filter ?P (messages s)))"
    using d by (intro distinct_card[symmetric] distinct_filter)
  also have "set (filter ?P (messages s)) = {m \<in> set (messages s). ?P m}" by simp
  finally show "unreadCount e = card {m \<in> set (messages s). ?P m}" .
next
  fix result e
  assume r: "getUserConversations s U result" and e: "e \<in> set result"
    and all: "\<forall>m\<in>set (messages s). m_conversationId m = c_id (conv e) \<longrightarrow>
                   (\<exists>r\<in>set (messageReadReceipts s). r_messageId r = m_id m \<and> r_userId r = U)"
  have "unreadCount e = unread_count s (c_id (conv e)) U"
    using r e by (rule getUserConversations_unread)
  also have "\<dots> = 0" using all by (simp add: unread_count_filter filter_empty_conv)
  finally show "unreadCount e = 0" .
qed

theorem unreadCount_correct_witness:
  "distinct (map m_id (messages example_store)) \<and>
   getUserConversations example_store 1 [example_entry_direct, example_entry_group] \<and>
   unreadCount example_entry_direct = 1 \<and>
   card {m \<in> set (messages example_store).
           m_conversationId m = 1 \<and> senderId m \<noteq> 1 \<and>
           \<not> (\<exists>r\<in>set (messageReadReceipts example_store). r_messageId r = m_id m \<and> r_userId r = 1)} = 1 \<and>
   unreadCount example_entry_group = 0"
proof -
  have d: "distinct (map m_id (messages example_store))"
    by (simp add: example_defs)
  have c: "c_id (conv example_entry_direct) = 1" "unreadCount example_entry_direct = 1"
     "unreadCount example_entry_group = 0"
    by (simp_all add: entry_defs example_defs)
  from unreadCount_correct[OF d, of 1] example_answers(1)
  have "unreadCount example_entry_direct =
     card {m \<in> set (messages example_store).
           m_conversationId m = c_id (conv example_entry_direct) \<and> senderId m \<noteq> 1 \<and>
           \<not> (\<exists>r\<in>set (messageReadReceipts example_store). r_messageId r = m_id m \<and> r_userId r = 1)}"
    by (simp del: One_nat_def)
  then show ?thesis using d c example_answers(1) by (simp del: One_nat_def)
qed

text \<open>
  Claim C9. For a user without any membership row the only answer of
  \<open>getUserConversations\<close> is the empty list. In every answer, an entry whose
  conversation holds no message has no \<open>lastMessage\<close> and an \<open>unreadCount\<close> of 0.
\<close>

theorem getUserConversations_empty_cases:
  "(list_all (\<lambda>cm. cm_userId cm \<noteq> U) (conversationMembers s) \<longrightarrow>
      (\<forall>result. getUserConversations s U result \<longleftrightarrow> result = [])) \<and>
   (\<forall>result. getUserConversations s U result \<longrightarrow>
      (\<forall>e\<in>set result.
         (\<forall>m\<in>set (messages s). m_conversationId m \<noteq> c_id (conv e)) \<longrightarrow>
         lastMessage e = None \<and> unreadCount e = 0))"
proof (intro conjI allI impI ballI)
  fix result
  assume "list_all (\<lambda>cm. cm_userId cm \<noteq> U) (conversationMembers s)"
  then have "set (user_conversations s U) = {}"
    by (auto simp: set_user_conversations list_all_iff)
  then have "user_conversations s U = []" by simp
  then show "getUserConversations s U result \<longleftrightarrow> result = []"
    by (auto simp: getUserConversations_def)
next
  fix result e
  assume r: "getUserConversations s U result" and e: "e \<in> set result"
    and none: "\<forall>m\<in>set (messages s). m_conversationId m \<noteq> c_id (conv e)"
  have ce: "conversation_entry s U e"
    using r e by (simp add: getUserConversations_def list_all_iff)
  then have "last_message s (c_id (conv e)) (lastMessage e)"
    by (simp add: conversation_entry_def)
  then show "lastMessage e = None" using none by (rule last_message_none)
  show "unreadCount e = 0"
    using ce none by (simp add: conversation_entry_def unread_count_filter filter_empty_conv)
qed

theorem getUserConversations_empty_cases_witness:
  "list_all (\<lambda>cm. cm_userId cm \<noteq> 4) (conversationMembers example_store) \<and>
   getUserConversations example_store 4 [] \<and>
   \<not> getUserConversations example_store 4 [example_entry_group] \<and>
   getUserConversations example_store 1 [example_entry_direct, example_entry_group] \<and>
   list_all (\<lambda>m. m_conversationId m \<noteq> c_id (conv example_entry_group)) (messages example_store) \<and>
   lastMessage example_entry_group = None \<and> unreadCount example_entry_group = 0"
proof -
  have h1: "list_all (\<lambda>cm. cm_userId cm \<noteq> 4) (conversationMembers example_store)"
    by (simp add: example_defs)
  have h2: "list_all (\<lambda>m. m_conversationId m \<noteq> c_id (conv example_entry_group)) (messages example_store)"
    by (simp add: entry_defs example_defs)
  have h3: "example_entry_group \<in> set [example_entry_direct, example_entry_group]"
    by simp
  from getUserConversations_empty_cases[of 4 example_store] h1
  have iff: "\<forall>result. getUserConversations example_store 4 result \<longleftrightarrow> result = []"
    by (rule conjunct1[THEN mp])
  then have a: "getUserConversations example_store 4 []"
    and b: "\<not> getUserConversations example_store 4 [example_entry_group]"
    by blast+
  from getUserConversations_empty_cases[of 1 example_store]
  have "\<forall>result. getUserConversations example_store 1 result \<longrightarrow>
      (\<forall>e\<in>set result.
         (\<forall>m\<in>set (messages example_store). m_conversationId m \<noteq> c_id (conv e)) \<longrightarrow>
         lastMessage e = None \<and> unreadCount e = 0)"
    by (rule conjunct2)
  with example_answers(1) h3 h2
  have "lastMessage example_entry_group = None \<and> unreadCount example_entry_group = 0"
    unfolding list_all_iff by blast
  then show ?thesis using h1 h2 a b example_answers(1) by blast
qed

text \<open>
  Claim C5, as stated, at a concrete input: conversations 1 and 2 of the example store
  have the same \<open>updatedAt\<close>, the query orders by \<open>updatedAt\<close> alone, and both
  orders of the two conversations are answers for user 1.
\<close>

theorem getUserConversations_tie_order_open:
  "getUserConversations example_store 1 [example_entry_direct, example_entry_group] \<and>
   getUserConversations example_store 1 [example_entry_group, example_entry_direct] \<and>
   c_updatedAt (conv example_entry_direct) = c_updatedAt (conv example_entry_group) \<and>
   map (\<lambda>e. c_id (conv e)) [example_entry_direct, example_entry_group] \<noteq>
   map (\<lambda>e. c_id (conv e)) [example_entry_group, example_entry_direct]"
  using example_answers(1,2) by (simp add: entry_defs example_defs del: One_nat_def)

text \<open>
  Claim C5, amended. Every answer of \<open>getUserConversations\<close> is sorted by
  \<open>updatedAt\<close>, newest first, and any two answers on the same store list the same
  \<open>updatedAt\<close> values in the same order. The query has no second sort key: the order
  of conversations with equal \<open>updatedAt\<close> is the database's choice, and two answers
  list the same conversations in the same order when the \<open>updatedAt\<close> values of the
  user's conversations are pairwise different.
\<close>

theorem getUserConversations_order:
  assumes "getUserConversations s U r1"
  shows "sorted_wrt (\<lambda>a b. c_updatedAt (conv b) \<le> c_updatedAt (conv a)) r1 \<and>
         (getUserConversations s U r2 \<longrightarrow>
            map (\<lambda>e. c_updatedAt (conv e)) r2 = map (\<lambda>e. c_updatedAt (conv e)) r1) \<and>
         (getUserConversations s U r2 \<and> inj_on c_updatedAt (set (user_conversations s U)) \<longrightarrow>
            map conv r2 = map conv r1)"
proof (intro conjI impI)
  have o1: "order_by_desc c_updatedAt (user_conversations s U) (map conv r1)"
    using assms by (simp add: getUserConversations_def)
  then have "sorted_wrt (\<lambda>a b. c_updatedAt b \<le> c_updatedAt a) (map conv r1)"
    by (simp add: order_by_desc_def)
  then show "sorted_wrt (\<lambda>a b. c_updatedAt (conv b) \<le> c_updatedAt (conv a)) r1"
    by (simp add: sorted_wrt_map)
  {
    assume "getUserConversations s U r2"
    then have o2: "order_by_desc c_updatedAt (user_conversations s U) (map conv r2)"
      by (simp add: getUserConversations_def)
    from order_by_desc_keys[OF o2 o1]
    show "map (\<lambda>e. c_updatedAt (conv e)) r2 = map (\<lambda>e. c_updatedAt (conv e)) r1"
      by (simp add: comp_def)
  }
  {
    assume "getUserConversations s U r2 \<and> inj_on c_updatedAt (set (user_conversations s U))"
    then have o2: "order_by_desc c_updatedAt (user_conversations s U) (map conv r2)"
      and inj: "inj_on c_updatedAt (set (user_conversations s U))"
      by (simp_all add: getUserConversations_def)
    from order_by_desc_unique[OF o2 o1 inj] show "map conv r2 = map conv r1" .
  }
qed

theorem getUserConversations_order_witness:
  "getUserConversations example_store 3 [example_entry_group3] \<and>
   inj_on c_updatedAt (set (user_conversations example_store 3)) \<and>
   getUserConversations example_store 1 [example_entry_direct, example_entry_group] \<and>
   getUserConversations example_store 1 [example_entry_group, example_entry_direct] \<and>
   sorted_wrt (\<lambda>a b. c_updatedAt (conv b) \<le> c_updatedAt (conv a))
     [example_entry_direct, example_entry_group] \<and>
   map (\<lambda>e. c_updatedAt (conv e)) [example_entry_group, example_entry_direct] =
   map (\<lambda>e. c_updatedAt (conv e)) [example_entry_direct, example_entry_group] \<and>
   map conv [example_entry_group3] = map conv [example_entry_group3]"
proof -
  have i: "inj_on c_updatedAt (set (user_conversations example_store 3))"
    by (simp add: example_user_conversations)
  note a = getUserConversations_order[OF example_answers(3), of "[example_entry_group3]"]
  note b = getUserConversations_order[OF example_answers(1),
             of "[example_entry_group, example_entry_direct]"]
  from b have b1: "sorted_wrt (\<lambda>a b. c_updatedAt (conv b) \<le> c_updatedAt (conv a))
     [example_entry_direct, example_entry_group]"
    by (rule conjunct1)
  from b example_answers(2)
  have b2: "map (\<lambda>e. c_updatedAt (conv e)) [example_entry_group, example_entry_direct] =
   map (\<lambda>e. c_updatedAt (conv e)) [example_entry_direct, example_entry_group]"
    by blast
  from a example_answers(3) i
  have a3: "map conv [example_entry_group3] = map conv [example_entry_group3]"
    by blast
  show ?thesis
    using i example_answers b1 b2 a3 by blast
qed

section \<open>getConversationMessages\<close>

text \<open>
  In a store that satisfies the keys of the schema every message is joined with exactly
  one user, its sender, so the join neither drops nor repeats a message.
\<close>

lemma unique_row:
  "distinct (map key rows) \<Longrightarrow> k \<in> set (map key rows) \<Longrightarrow>
   \<exists>r. filter (\<lambda>r. k = key r) rows = [r] \<and> r \<in> set rows \<and> key r = k"
proof (induction rows)
  case Nil
  then show ?case by simp
next
  case (Cons a rows)
  show ?case
  proof (cases "k = key a")
    case True
    then have "filter (\<lambda>r. k = key r) rows = []"
      using Cons.prems(1) by (auto simp: filter_empty_conv)
    with True show ?thesis by simp
  next
    case False
    with Cons show ?thesis by auto
  qed
qed

lemma inner_join_single:
  assumes "\<forall>a\<in>set as. \<exists>b. filter (on a) bs = [b]"
  shows "map fst (filter (\<lambda>(a, b). P a) (inner_join as bs on)) = filter P as"
  using assms
proof (induction as)
  case Nil
  then show ?case by (simp add: inner_join_def)
next
  case (Cons a as)
  then obtain b where b: "filter (on a) bs = [b]" by auto
  have "inner_join (a # as) bs on = (a, b) # inner_join as bs on"
    using b by (simp add: inner_join_def)
  with Cons show ?case by simp
qed

lemma messages_with_sender_fst:
  assumes "wf_store s"
  shows "map fst (messages_with_sender s cid) =
         filter (\<lambda>m. m_conversationId m = cid) (messages s)"
proof -
  have "\<forall>m\<in>set (messages s). \<exists>u. filter (\<lambda>u. senderId m = u_id u) (users s) = [u]"
  proof
    fix m assume "m \<in> set (messages s)"
    then have "senderId m \<in> set (map u_id (users s))"
      using assms by (simp add: wf_store_def foreign_keys_def list_all_iff)
    moreover have "distinct (map u_id (users s))"
      using assms by (simp add: wf_store_def primary_keys_def)
    ultimately show "\<exists>u. filter (\<lambda>u. senderId m = u_id u) (users s) = [u]"
      using unique_row[of u_id "users s" "senderId m"] by blast
  qed
  then show ?thesis
    unfolding messages_with_sender_def by (rule inner_join_single)
qed

lemma messages_with_sender_sender:
  "x \<in> set (messages_with_sender s cid) \<Longrightarrow>
   snd x \<in> set (users s) \<and> u_id (snd x) = senderId (fst x)"
  by (auto simp: messages_with_sender_def set_inner_join)

lemma order_by_desc_limit_props:
  assumes "order_by_desc_limit key n rows out"
  shows "sorted_wrt (\<lambda>a b. key b \<le> key a) out"
    and "length out = min n (length rows)"
    and "set out \<subseteq> set rows"
    and "\<exists>rest. mset out + mset rest = mset rows \<and> (\<forall>x\<in>set rest. \<forall>y\<in>set out. key x \<le> key y)"
proof -
  from assms obtain ordered where o: "mset ordered = mset rows"
      "sorted_wrt (\<lambda>a b. key b \<le> key a) ordered" and out: "out = take n ordered"
    by (auto simp: order_by_desc_limit_def order_by_desc_def)
  have app: "sorted_wrt (\<lambda>a b. key b \<le> key a) (take n ordered @ drop n ordered)"
    using o(2) by simp
  show "sorted_wrt (\<lambda>a b. key b \<le> key a) out"
    using app unfolding sorted_wrt_append out by blast
  show "length out = min n (length rows)"
    using mset_eq_length[OF o(1)] by (simp add: out min.commute)
  show "set out \<subseteq> set rows"
    using mset_eq_setD[OF o(1)] set_take_subset[of n ordered] by (simp add: out)
  have "mset out + mset (drop n ordered) = mset rows"
    using o(1) by (simp add: out flip: mset_append)
  moreover have "\<forall>x\<in>set (drop n ordered). \<forall>y\<in>set out. key x \<le> key y"
    using app unfolding sorted_wrt_append out by blast
  ultimately show "\<exists>rest. mset out + mset rest = mset rows \<and>
      (\<forall>x\<in>set rest. \<forall>y\<in>set out. key x \<le> key y)"
    by blast
qed

lemma getConversationMessages_total: "\<exists>res. getConversationMessages s cid limit res"
proof -
  let ?n = "case limit of None \<Rightarrow> 50 | Some l \<Rightarrow> l"
  let ?out = "rev (take (nat ?n) (rev (sort_key (\<lambda>(m, u). m_createdAt m) (messages_with_sender s cid))))"
  let ?all = "rev (rev (sort_key (\<lambda>(m, u). m_createdAt m) (messages_with_sender s cid)))"
  consider "?n < 0" | "2 ^ 63 \<le> ?n" | "0 \<le> ?n" "?n < 2 ^ 63"
    by linarith
  then show ?thesis
  proof cases
    case 1
    have "order_by_desc (\<lambda>(m, u). m_createdAt m) (messages_with_sender s cid) (rev ?all)"
      unfolding rev_rev_ident by (rule order_by_desc_total)
    with 1 have "getConversationMessages s cid limit (Inr ?all)"
      by (simp add: getConversationMessages_def)
    then show ?thesis ..
  next
    case 2
    then have "getConversationMessages s cid limit (Inl BigintOutOfRange)"
      by (simp add: getConversationMessages_def)
    then show ?thesis ..
  next
    case 3
    then have "getConversationMessages s cid limit (Inr ?out)"
      by (simp add: getConversationMessages_def order_by_desc_limit_total)
    then show ?thesis ..
  qed
qed

text \<open>
  For a negative limit the query carries no \<open>LIMIT\<close>: the answers are the orderings of
  all the rows, oldest first.
\<close>

lemma getConversationMessages_negative_limit:
  "limit < 0 \<Longrightarrow>
   getConversationMessages s cid (Some limit) res \<longleftrightarrow>
     (\<exists>out. res = Inr out \<and>
        order_by_desc (\<lambda>(m, u). m_createdAt m) (messages_with_sender s cid) (rev out))"
  by (cases res) (simp_all add: getConversationMessages_def)

lemma example_messages_with_sender:
  "messages_with_sender example_store 1 =
     [(example_message 1 1 5, example_user 1), (example_message 2 2 7, example_user 2),
      (example_message 3 2 9, example_user 2)]"
  by (simp add: messages_with_sender_def inner_join_def example_defs)

lemma example_newest_two:
  "getConversationMessages example_store 1 (Some 2)
     (Inr [(example_message 2 2 7, example_user 2), (example_message 3 2 9, example_user 2)])"
proof -
  have "order_by_desc (\<lambda>(m, u). m_createdAt m) (messages_with_sender example_store 1)
     [(example_message 3 2 9, example_user 2), (example_message 2 2 7, example_user 2),
      (example_message 1 1 5, example_user 1)]"
    by (simp add: order_by_desc_def example_messages_with_sender del: One_nat_def)
       (simp add: example_message_def)
  then have "order_by_desc_limit (\<lambda>(m, u). m_createdAt m) 2 (messages_with_sender example_store 1)
     (rev [(example_message 2 2 7, example_user 2), (example_message 3 2 9, example_user 2)])"
    by (rule order_by_desc_limitI) simp
  then show ?thesis
    by (simp add: getConversationMessages_def del: One_nat_def)
qed

text \<open>
  Claim C4, as stated, at a concrete input: \<open>2 ^ 63\<close> is a positive integer limit, and
  for it the query of conversation 1 of the example store has one answer, the
  database's error; the list of the conversation's three messages is not an answer.
\<close>

theorem getConversationMessages_limit_out_of_range:
  "(0::int) < 2 ^ 63 \<and>
   getConversationMessages example_store 1 (Some (2 ^ 63)) (Inl BigintOutOfRange) \<and>
   \<not> getConversationMessages example_store 1 (Some (2 ^ 63))
       (Inr [(example_message 1 1 5, example_user 1), (example_message 2 2 7, example_user 2),
             (example_message 3 2 9, example_user 2)])"
  by (simp add: getConversationMessages_def)

text \<open>
  Claim C4, amended. In a store that satisfies the schema's keys: for a positive
  \<open>limit\<close> below \<open>2 ^ 63\<close>, \<open>getConversationMessages\<close> always answers, and every
  answer is a list of (message, sender) pairs in non-decreasing \<open>createdAt\<close> order, of
  length \<open>min limit n\<close> for the \<open>n\<close> messages of the conversation; the messages it
  leaves out (\<open>older\<close>) are, together with the ones returned, exactly the messages of
  the conversation, and none of them is newer than a returned one; each message comes
  with the user row of its sender. For a \<open>limit\<close> of \<open>2 ^ 63\<close> or more the only
  answer is the database's error. With the \<open>limit\<close> argument absent the answers are
  those for 50.
\<close>

theorem getConversationMessages_recent_ascending:
  assumes "wf_store s" and "0 < limit"
  shows "(limit < 2 ^ 63 \<longrightarrow>
            (\<exists>res. getConversationMessages s cid (Some limit) res) \<and>
            (\<forall>res. getConversationMessages s cid (Some limit) res \<longrightarrow>
               (\<exists>out older. res = Inr out \<and>
                  sorted_wrt (\<lambda>a b. m_createdAt (fst a) \<le> m_createdAt (fst b)) out \<and>
                  length out = min (nat limit)
                    (length (filter (\<lambda>m. m_conversationId m = cid) (messages s))) \<and>
                  mset (map fst out) + mset older =
                    mset (filter (\<lambda>m. m_conversationId m = cid) (messages s)) \<and>
                  (\<forall>m\<in>set older. \<forall>x\<in>set out. m_createdAt m \<le> m_createdAt (fst x)) \<and>
                  (\<forall>x\<in>set out. snd x \<in> set (users s) \<and> u_id (snd x) = senderId (fst x))))) \<and>
         (2 ^ 63 \<le> limit \<longrightarrow>
            (\<forall>res. getConversationMessages s cid (Some limit) res \<longleftrightarrow>
                   res = Inl BigintOutOfRange)) \<and>
         (\<forall>res. getConversationMessages s cid None res \<longleftrightarrow>
                getConversationMessages s cid (Some 50) res)"
proof (intro conjI allI impI)
  show "\<exists>res. getConversationMessages s cid (Some limit) res"
    by (rule getConversationMessages_total)
next
  fix res
  show "getConversationMessages s cid None res \<longleftrightarrow> getConversationMessages s cid (Some 50) res"
    by (simp add: getConversationMessages_def)
next
  fix res
  assume "2 ^ 63 \<le> limit"
  with assms(2) show "getConversationMessages s cid (Some limit) res \<longleftrightarrow>
      res = Inl BigintOutOfRange"
    by (simp add: getConversationMessages_def)
next
  fix res
  assume small: "limit < 2 ^ 63"
    and "getConversationMessages s cid (Some limit) res"
  with assms(2) obtain out where res: "res = Inr out"
    and lim: "order_by_desc_limit (\<lambda>(m, u). m_createdAt m) (nat limit)
                (messages_with_sender s cid) (rev out)"
    by (cases res) (auto simp: getConversationMessages_def)
  let ?key = "\<lambda>(m, u). m_createdAt m"
  let ?msgs = "filter (\<lambda>m. m_conversationId m = cid) (messages s)"
  note p = order_by_desc_limit_props[OF lim]
  have len: "length (messages_with_sender s cid) = length ?msgs"
    using messages_with_sender_fst[OF assms(1), of cid] by (metis length_map)
  have 1: "sorted_wrt (\<lambda>a b. m_createdAt (fst a) \<le> m_createdAt (fst b)) out"
    using p(1) by (simp add: sorted_wrt_rev case_prod_unfold)
  have 2: "length out = min (nat limit) (length ?msgs)"
    using p(2) len by simp
  from p(4) obtain rest where rest: "mset (rev out) + mset rest = mset (messages_with_sender s cid)"
     "\<forall>x\<in>set rest. \<forall>y\<in>set (rev out). ?key x \<le> ?key y"
    by blast
  have "mset (map fst (rev out)) + mset (map fst rest) = mset (map fst (messages_with_sender s cid))"
    using rest(1) by (metis mset_append map_append mset_map)
  then have 3: "mset (map fst out) + mset (map fst rest) = mset ?msgs"
    by (simp add: messages_with_sender_fst[OF assms(1)])
  have 4: "\<forall>m\<in>set (map fst rest). \<forall>x\<in>set out. m_createdAt m \<le> m_createdAt (fst x)"
    using rest(2) by (auto simp: case_prod_unfold)
  have 5: "\<forall>x\<in>set out. snd x \<in> set (users s) \<and> u_id (snd x) = senderId (fst x)"
    using p(3) messages_with_sender_sender[of _ s cid] by auto
  show "\<exists>out older. res = Inr out \<and>
               sorted_wrt (\<lambda>a b. m_createdAt (fst a) \<le> m_createdAt (fst b)) out \<and>
               length out = min (nat limit) (length ?msgs) \<and>
               mset (map fst out) + mset older = mset ?msgs \<and>
               (\<forall>m\<in>set older. \<forall>x\<in>set out. m_createdAt m \<le> m_createdAt (fst x)) \<and>
               (\<forall>x\<in>set out. snd x \<in> set (users s) \<and> u_id (snd x) = senderId (fst x))"
    using res 1 2 3 4 5 by blast
qed

theorem getConversationMessages_recent_ascending_witness:
  "wf_store example_store \<and> (0::int) < 2 \<and> (2::int) < 2 ^ 63 \<and>
   getConversationMessages example_store 1 (Some 2)
     (Inr [(example_message 2 2 7, example_user 2), (example_message 3 2 9, example_user 2)]) \<and>
   sorted_wrt (\<lambda>a b. m_createdAt (fst a) \<le> m_createdAt (fst b))
     [(example_message 2 2 7, example_user 2), (example_message 3 2 9, example_user 2)] \<and>
   (\<exists>older. mset [example_message 2 2 7, example_message 3 2 9] + mset older =
        mset (filter (\<lambda>m. m_conversationId m = 1) (messages example_store)) \<and>
      list_all (\<lambda>m. m_createdAt m \<le> 7) older) \<and>
   (0::int) < 2 ^ 63 + 5 \<and> (2::int) ^ 63 \<le> 2 ^ 63 + 5 \<and>
   getConversationMessages example_store 1 (Some (2 ^ 63 + 5)) (Inl BigintOutOfRange)"
proof -
  have l: "(0::int) < 2" and l': "(2::int) < 2 ^ 63" by simp_all
  have b: "(0::int) < 2 ^ 63 + 5" and b': "(2::int) ^ 63 \<le> 2 ^ 63 + 5" by simp_all
  from getConversationMessages_recent_ascending[OF wf_example_store l, of 1] l'
       example_newest_two
  obtain out older where r:
    "Inr [(example_message 2 2 7, example_user 2), (example_message 3 2 9, example_user 2)]
       = (Inr out :: db_error + (message \<times> user) list)"
    "sorted_wrt (\<lambda>a b. m_createdAt (fst a) \<le> m_createdAt (fst b)) out"
    "mset (map fst out) + mset older =
       mset (filter (\<lambda>m. m_conversationId m = 1) (messages example_store))"
    "\<forall>m\<in>set older. \<forall>x\<in>set out. m_createdAt m \<le> m_createdAt (fst x)"
    by blast
  from r(1) have out: "out = [(example_message 2 2 7, example_user 2), (example_message 3 2 9, example_user 2)]"
    by simp
  have o: "list_all (\<lambda>m. m_createdAt m \<le> 7) older"
    using r(4) by (simp add: out list_all_iff example_message_def)
  from getConversationMessages_recent_ascending[OF wf_example_store b, of 1] b'
  have e: "getConversationMessages example_store 1 (Some (2 ^ 63 + 5)) (Inl BigintOutOfRange)"
    by blast
  have s: "sorted_wrt (\<lambda>a b. m_createdAt (fst a) \<le> m_createdAt (fst b))
     [(example_message 2 2 7, example_user 2), (example_message 3 2 9, example_user 2)]"
    using r(2) by (simp only: out)
  have m: "\<exists>older. mset [example_message 2 2 7, example_message 3 2 9] + mset older =
        mset (filter (\<lambda>m. m_conversationId m = 1) (messages example_store)) \<and>
      list_all (\<lambda>m. m_createdAt m \<le> 7) older"
    using r(3) o by (auto simp: out simp del: One_nat_def)
  show ?thesis
    using wf_example_store l l' example_newest_two s m b b' e by blast
qed

section \<open>POST /api/conversations/direct\<close>

text \<open>
  On an answer of \<open>getUserConversations\<close> the test of \<open>find\<close> is the test
  \<open>direct_candidate\<close> on the entry's conversation, so \<open>find\<close> returns the first
  candidate in the order of the answer, if there is one.
\<close>

lemma inner_join_append:
  "inner_join (as @ as') bs on = inner_join as bs on @ inner_join as' bs on"
  by (simp add: inner_join_def)

lemma is_direct_with_entry:
  assumes "conversation_entry s A e"
  shows "is_direct_with B e \<longleftrightarrow> direct_candidate s A B (conv e)"
proof -
  have m: "mset (otherMembers e) = mset (other_members s (c_id (conv e)) A)"
    using assms by (simp add: conversation_entry_def)
  have "(case otherMembers e of [u] \<Rightarrow> u_id u = B | _ \<Rightarrow> False) \<longleftrightarrow>
        map u_id (other_members s (c_id (conv e)) A) = [B]"
  proof
    assume "case otherMembers e of [u] \<Rightarrow> u_id u = B | _ \<Rightarrow> False"
    then obtain u where u: "otherMembers e = [u]" "u_id u = B"
      by (auto split: list.splits)
    with m have "other_members s (c_id (conv e)) A = [u]" by simp
    with u(2) show "map u_id (other_members s (c_id (conv e)) A) = [B]" by simp
  next
    assume "map u_id (other_members s (c_id (conv e)) A) = [B]"
    then obtain u where u: "other_members s (c_id (conv e)) A = [u]" "u_id u = B"
      by auto
    with m have "otherMembers e = [u]" by simp
    with u(2) show "case otherMembers e of [u] \<Rightarrow> u_id u = B | _ \<Rightarrow> False" by simp
  qed
  then show ?thesis
    by (simp add: is_direct_with_def direct_candidate_def)
qed

lemma find_filter:
  "List.find Q xs = Some d \<longleftrightarrow> (\<exists>rest. filter Q xs = d # rest)"
  by (induction xs) auto

lemma find_None_filter: "List.find Q xs = None \<longleftrightarrow> filter Q xs = []"
  by (induction xs) auto

lemma order_by_desc_filter:
  "order_by_desc key rows out \<Longrightarrow> order_by_desc key (filter P rows) (filter P out)"
  by (simp add: order_by_desc_def sorted_wrt_filter)

lemma direct_filter:
  assumes "getUserConversations s A ex"
  shows "map conv (filter (is_direct_with B) ex) = filter (direct_candidate s A B) (map conv ex)"
    and "order_by_desc c_updatedAt (filter (direct_candidate s A B) (user_conversations s A))
           (map conv (filter (is_direct_with B) ex))"
proof -
  have "\<forall>e\<in>set ex. is_direct_with B e = direct_candidate s A B (conv e)"
    using assms by (simp add: getUserConversations_def list_all_iff is_direct_with_entry)
  then have "filter (is_direct_with B) ex = filter (direct_candidate s A B \<circ> conv) ex"
    by (intro filter_cong) simp_all
  then show m: "map conv (filter (is_direct_with B) ex) = filter (direct_candidate s A B) (map conv ex)"
    by (simp add: filter_map)
  have "order_by_desc c_updatedAt (user_conversations s A) (map conv ex)"
    using assms by (simp add: getUserConversations_def)
  then show "order_by_desc c_updatedAt (filter (direct_candidate s A B) (user_conversations s A))
           (map conv (filter (is_direct_with B) ex))"
    unfolding m by (rule order_by_desc_filter)
qed

lemma find_direct_None:
  assumes "getUserConversations s A ex"
  shows "List.find (is_direct_with B) ex = None \<longleftrightarrow>
         filter (direct_candidate s A B) (user_conversations s A) = []"
proof -
  note o = direct_filter(2)[OF assms, of B]
  have "List.find (is_direct_with B) ex = None \<longleftrightarrow> map conv (filter (is_direct_with B) ex) = []"
    by (simp add: find_None_filter)
  also have "\<dots> \<longleftrightarrow> filter (direct_candidate s A B) (user_conversations s A) = []"
    using order_by_desc_length[OF o] by (metis length_0_conv)
  finally show ?thesis .
qed

lemma find_direct_same:
  assumes a1: "getUserConversations s A ex1" and a2: "getUserConversations s A ex2"
      and inj: "inj_on c_updatedAt
                  {c \<in> set (user_conversations s A). direct_candidate s A B c}"
      and f1: "List.find (is_direct_with B) ex1 = Some d1"
  shows "\<exists>d2. List.find (is_direct_with B) ex2 = Some d2 \<and> conv d2 = conv d1"
proof -
  have i: "inj_on c_updatedAt (set (filter (direct_candidate s A B) (user_conversations s A)))"
    using inj by simp
  have eq: "map conv (filter (is_direct_with B) ex1) = map conv (filter (is_direct_with B) ex2)"
    using direct_filter(2)[OF a1] direct_filter(2)[OF a2] i by (rule order_by_desc_unique)
  from f1 obtain rest where "filter (is_direct_with B) ex1 = d1 # rest"
    by (auto simp: find_filter)
  with eq obtain d2 rest2 where "filter (is_direct_with B) ex2 = d2 # rest2" "conv d2 = conv d1"
    by (cases "filter (is_direct_with B) ex2") auto
  then show ?thesis by (auto simp: find_filter)
qed

text \<open>
  The two ways through the handler: it returns the conversation it found and leaves the
  store alone, or it appends a conversation and the membership rows of the two users.
  After the second, the new conversation is the only new candidate.
\<close>

lemma direct_from_found:
  "List.find (is_direct_with B) ex = Some d \<Longrightarrow> direct_from ex s now A B = (s, Json (Existing d))"
  by (simp add: direct_from_def)

lemma direct_from_created:
  assumes "List.find (is_direct_with B) ex = None"
      and "A \<in> set (map u_id (users s))" and "B \<in> set (map u_id (users s))"
  shows "\<exists>c mA mB.
           direct_from ex s now A B =
             (s\<lparr>conversations := conversations s @ [c],
                conversationMembers := conversationMembers s @ [mA, mB]\<rparr>, Json (Created c)) \<and>
           c_id c = fresh_id (map c_id (conversations s)) \<and> isGroup c = Some False \<and>
           cm_conversationId mA = c_id c \<and> cm_userId mA = A \<and>
           cm_conversationId mB = c_id c \<and> cm_userId mB = B"
  using assms
  by (simp add: direct_from_def createConversation_def addConversationMember_def Let_def
      or_default_def del: set_map)
     (intro exI conjI, rule refl, simp_all)


lemma find_SomeD: "List.find Q xs = Some d \<Longrightarrow> d \<in> set xs \<and> Q d"
  by (induction xs) (auto split: if_splits)

lemma created_store_facts:
  fixes s :: store and c :: conversation and mA mB :: conversationMember and A B :: ident
  defines "s3 \<equiv> s\<lparr>conversations := conversations s @ [c],
                    conversationMembers := conversationMembers s @ [mA, mB]\<rparr>"
  assumes wf: "wf_store s" and ne: "A \<noteq> B" and Bin: "B \<in> set (map u_id (users s))"
      and cid: "c_id c = fresh_id (map c_id (conversations s))"
      and mA: "cm_conversationId mA = c_id c" "cm_userId mA = A"
      and mB: "cm_conversationId mB = c_id c" "cm_userId mB = B"
  shows "set (user_conversations s3 A) = insert c (set (user_conversations s A))"
    and "\<And>c'. c' \<in> set (conversations s) \<Longrightarrow>
           other_members s3 (c_id c') A = other_members s (c_id c') A"
    and "map u_id (other_members s3 (c_id c) A) = [B]"
proof -
  have fresh: "\<forall>c'\<in>set (conversations s). c_id c' \<noteq> c_id c"
    using fresh_id_notin[of "map c_id (conversations s)"] cid by (metis image_eqI list.set_map)
  have fk: "\<forall>cm\<in>set (conversationMembers s). cm_conversationId cm \<noteq> c_id c"
  proof
    fix cm assume "cm \<in> set (conversationMembers s)"
    then have "cm_conversationId cm \<in> set (map c_id (conversations s))"
      using wf by (simp add: wf_store_def foreign_keys_def list_all_iff)
    then show "cm_conversationId cm \<noteq> c_id c"
      using fresh by auto
  qed
  show "set (user_conversations s3 A) = insert c (set (user_conversations s A))"
    unfolding set_user_conversations s3_def using fresh fk mA mB ne by auto
  show "other_members s3 (c_id c') A = other_members s (c_id c') A"
    if "c' \<in> set (conversations s)" for c'
  proof -
    have "c_id c' \<noteq> c_id c" using that fresh by blast
    then have "filter (\<lambda>(cm, u). cm_conversationId cm = c_id c' \<and> cm_userId cm \<noteq> A)
            (inner_join [mA, mB] (users s) (\<lambda>cm u. cm_userId cm = u_id u)) = []"
      using mA mB by (auto simp: filter_empty_conv set_inner_join)
    then show ?thesis
      by (simp add: other_members_def s3_def inner_join_append)
  qed
  have old: "filter (\<lambda>(cm, u). cm_conversationId cm = c_id c \<and> cm_userId cm \<noteq> A)
            (inner_join (conversationMembers s) (users s) (\<lambda>cm u. cm_userId cm = u_id u)) = []"
    using fk by (auto simp: filter_empty_conv set_inner_join)
  have "distinct (map u_id (users s))"
    using wf by (simp add: wf_store_def primary_keys_def)
  from unique_row[OF this Bin] obtain uB where
    uB: "filter (\<lambda>u. B = u_id u) (users s) = [uB]" "u_id uB = B"
    by blast
  have new: "filter (\<lambda>(cm, u). cm_conversationId cm = c_id c \<and> cm_userId cm \<noteq> A)
            (inner_join [mA, mB] (users s) (\<lambda>cm u. cm_userId cm = u_id u)) = [(mB, uB)]"
    using mA mB ne uB by (simp add: inner_join_def filter_empty_conv)
  show "map u_id (other_members s3 (c_id c) A) = [B]"
    using old new uB(2) by (simp add: other_members_def s3_def inner_join_append)
qed

lemma post_conversations_direct_total: "\<exists>out. post_conversations_direct s now A B out"
proof -
  obtain ex where "getUserConversations s A ex"
    using getUserConversations_total by blast
  then have "post_conversations_direct s now A B (direct_from ex s now A B)"
    unfolding post_conversations_direct_def by blast
  then show ?thesis ..
qed

text \<open>The runs of the handler on the example data.\<close>

lemma example_self_answers:
  "getUserConversations example_store 4 []"
  "getUserConversations example_self_store 4 [example_entry_self, example_entry_self]"
proof -
  show "getUserConversations example_store 4 []"
    by (simp add: getUserConversations_def example_user_conversations)
  have u: "user_conversations example_self_store 4 = [example_created, example_created]"
    by (simp add: user_conversations_def inner_join_def example_self_store_def
        example_created_def example_defs)
  have e: "conversation_entry example_self_store 4 example_entry_self"
    by (simp add: conversation_entry_def last_message_def unread_count_def left_join_def
        other_members_def inner_join_def example_entry_self_def example_self_store_def
        example_created_def example_defs)
  show "getUserConversations example_self_store 4 [example_entry_self, example_entry_self]"
    by (simp add: getUserConversations_def u e order_by_desc_def)
       (simp add: example_entry_self_def)
qed

lemma example_direct_answer:
  "getUserConversations example_direct_store 1
     [example_entry_created, example_entry_direct, example_entry_group]"
proof -
  have u: "user_conversations example_direct_store 1 =
      [example_direct, example_group, example_created]"
    by (simp add: user_conversations_def inner_join_def example_direct_store_def
        example_created_def example_defs)
  have lm: "last_message example_direct_store = last_message example_store"
    by (simp add: last_message_def example_direct_store_def fun_eq_iff)
  have uc: "unread_count example_direct_store = unread_count example_store"
    by (simp add: unread_count_def example_direct_store_def fun_eq_iff)
  have om: "other_members example_direct_store 1 1 = other_members example_store 1 1"
      "other_members example_direct_store 2 1 = other_members example_store 2 1"
      "other_members example_direct_store 3 1 = [example_user 4]"
    by (simp_all add: other_members_def inner_join_def example_direct_store_def example_defs)
  have e1: "conversation_entry example_direct_store 1 example_entry_direct"
    and e2: "conversation_entry example_direct_store 1 example_entry_group"
    using example_entries(1,2)
    by (simp_all add: conversation_entry_def lm uc om example_conv del: One_nat_def)
  have e3: "conversation_entry example_direct_store 1 example_entry_created"
    by (simp add: conversation_entry_def lm uc example_entry_created_def example_created_def om
        del: One_nat_def)
       (simp add: last_message_def unread_count_def left_join_def example_defs)
  have k: "conv example_entry_created = example_created" "c_updatedAt example_created = 30"
    by (simp_all add: example_entry_created_def example_created_def)
  show ?thesis
    by (simp add: getUserConversations_def u e1 e2 e3 order_by_desc_def example_conv k
        del: One_nat_def)
qed

text \<open>
  User 4 asks twice for a direct conversation with user 4. The search looks at the
  members other than the requesting user, so the conversation created by the first call
  (with two membership rows of user 4) is not found by the second, which creates
  conversation 4.
\<close>

lemma direct_with_self_runs:
  "post_conversations_direct example_store 30 4 4
     (example_self_store, Json (Created example_created)) \<and>
   post_conversations_direct example_self_store 31 4 4
     (direct_from [example_entry_self, example_entry_self] example_self_store 31 4 4) \<and>
   snd (direct_from [example_entry_self, example_entry_self] example_self_store 31 4 4) =
     Json (Created \<lparr>c_id = 4, c_name = None, isGroup = Some False,
                    c_createdAt = 31, c_updatedAt = 31\<rparr>) \<and>
   map c_id (conversations
      (fst (direct_from [example_entry_self, example_entry_self] example_self_store 31 4 4))) =
     [1, 2, 3, 4] \<and>
   c_id example_created = 3"
proof -
  have 1: "direct_from [] example_store 30 4 4 = (example_self_store, Json (Created example_created))"
    by (simp add: direct_from_def createConversation_def addConversationMember_def Let_def
        or_default_def fresh_id_def example_self_store_def example_created_def example_defs)
  have first: "post_conversations_direct example_store 30 4 4
     (example_self_store, Json (Created example_created))"
    unfolding post_conversations_direct_def
    using example_self_answers(1) 1 by (intro exI[of _ "[]"]) simp
  have second: "post_conversations_direct example_self_store 31 4 4
     (direct_from [example_entry_self, example_entry_self] example_self_store 31 4 4)"
    unfolding post_conversations_direct_def
    using example_self_answers(2) by blast
  have 2: "direct_from [example_entry_self, example_entry_self] example_self_store 31 4 4 =
     (example_self_store
        \<lparr>conversations := conversations example_self_store @
            [\<lparr>c_id = 4, c_name = None, isGroup = Some False, c_createdAt = 31, c_updatedAt = 31\<rparr>],
         conversationMembers := conversationMembers example_self_store @
            [\<lparr>cm_id = 8, cm_conversationId = 4, cm_userId = 4, joinedAt = 31\<rparr>,
             \<lparr>cm_id = 9, cm_conversationId = 4, cm_userId = 4, joinedAt = 31\<rparr>]\<rparr>,
      Json (Created \<lparr>c_id = 4, c_name = None, isGroup = Some False,
                    c_createdAt = 31, c_updatedAt = 31\<rparr>))"
    by (simp add: direct_from_def is_direct_with_def createConversation_def
        addConversationMember_def Let_def or_default_def fresh_id_def example_entry_self_def
        example_self_store_def example_created_def example_defs)
  have 3: "map c_id (conversations example_self_store) = [1, 2, 3]"
    by (simp add: example_self_store_def example_created_def example_defs)
  show ?thesis
    using first second by (simp add: 2 3) (simp add: example_created_def)
qed

text \<open>
  User 1 asks twice for a direct conversation with user 2 in the store that holds two
  such conversations with the same \<open>updatedAt\<close>. Both orders of the two are answers of
  the list query, so the first call may find conversation 1 and the second
  conversation 3.
\<close>

lemma example_tie_answers:
  "getUserConversations example_tie_store 1
     [example_entry_direct, example_entry_group, example_entry_direct2]"
  "getUserConversations example_tie_store 1
     [example_entry_direct2, example_entry_group, example_entry_direct]"
proof -
  have u: "user_conversations example_tie_store 1 =
      [example_direct, example_group, example_direct2]"
    by (simp add: user_conversations_def inner_join_def example_tie_store_def
        example_direct2_def example_defs)
  have lm: "last_message example_tie_store = last_message example_store"
    by (simp add: last_message_def example_tie_store_def fun_eq_iff)
  have uc: "unread_count example_tie_store = unread_count example_store"
    by (simp add: unread_count_def example_tie_store_def fun_eq_iff)
  have om: "other_members example_tie_store 1 1 = other_members example_store 1 1"
      "other_members example_tie_store 2 1 = other_members example_store 2 1"
      "other_members example_tie_store 3 1 = [example_user 2]"
    by (simp_all add: other_members_def inner_join_def example_tie_store_def example_defs)
  have e1: "conversation_entry example_tie_store 1 example_entry_direct"
    and e2: "conversation_entry example_tie_store 1 example_entry_group"
    using example_entries(1,2)
    by (simp_all add: conversation_entry_def lm uc om example_conv del: One_nat_def)
  have e3: "conversation_entry example_tie_store 1 example_entry_direct2"
    by (simp add: conversation_entry_def lm uc example_entry_direct2_def example_direct2_def om
        del: One_nat_def)
       (simp add: last_message_def unread_count_def left_join_def example_defs)
  have k: "conv example_entry_direct2 = example_direct2" "c_updatedAt example_direct2 = 20"
    by (simp_all add: example_entry_direct2_def example_direct2_def)
  show "getUserConversations example_tie_store 1
     [example_entry_direct, example_entry_group, example_entry_direct2]"
    by (simp add: getUserConversations_def u e1 e2 e3 order_by_desc_def example_conv k
        del: One_nat_def)
  show "getUserConversations example_tie_store 1
     [example_entry_direct2, example_entry_group, example_entry_direct]"
    by (simp add: getUserConversations_def u e1 e2 e3 order_by_desc_def example_conv k
        del: One_nat_def)
qed

lemma direct_with_tie_runs:
  "post_conversations_direct example_tie_store 30 1 2
     (example_tie_store, Json (Existing example_entry_direct))"
  "post_conversations_direct example_tie_store 31 1 2
     (example_tie_store, Json (Existing example_entry_direct2))"
proof -
  have 1: "direct_from [example_entry_direct, example_entry_group, example_entry_direct2]
      example_tie_store 30 1 2 = (example_tie_store, Json (Existing example_entry_direct))"
    by (simp add: direct_from_def is_direct_with_def entry_defs example_defs)
  have 2: "direct_from [example_entry_direct2, example_entry_group, example_entry_direct]
      example_tie_store 31 1 2 = (example_tie_store, Json (Existing example_entry_direct2))"
    by (simp add: direct_from_def is_direct_with_def example_entry_direct2_def
        example_direct2_def example_user_def)
  show "post_conversations_direct example_tie_store 30 1 2
     (example_tie_store, Json (Existing example_entry_direct))"
    unfolding post_conversations_direct_def
    using example_tie_answers(1) 1
    by (intro exI[of _ "[example_entry_direct, example_entry_group, example_entry_direct2]"])
       (simp del: One_nat_def)
  show "post_conversations_direct example_tie_store 31 1 2
     (example_tie_store, Json (Existing example_entry_direct2))"
    unfolding post_conversations_direct_def
    using example_tie_answers(2) 2
    by (intro exI[of _ "[example_entry_direct2, example_entry_group, example_entry_direct]"])
       (simp del: One_nat_def)
qed

text \<open>
  Claim C6, as stated, at two concrete inputs. In the store with two non-group
  conversations of users 1 and 2 that carry the same \<open>updatedAt\<close>, a first call by user
  1 for user 2 may return conversation 1 and a second call conversation 3. And user 4,
  asking twice for a direct conversation with user 4, gets conversation 3 from the first
  call and a new conversation 4 from the second.
\<close>

theorem direct_conversation_not_deduplicated:
  "wf_store example_tie_store \<and> (1::nat) \<noteq> 2 \<and>
   post_conversations_direct example_tie_store 30 1 2
     (example_tie_store, Json (Existing example_entry_direct)) \<and>
   post_conversations_direct example_tie_store 31 1 2
     (example_tie_store, Json (Existing example_entry_direct2)) \<and>
   direct_id (Existing example_entry_direct) = 1 \<and>
   direct_id (Existing example_entry_direct2) = 3 \<and>
   post_conversations_direct example_store 30 4 4
     (example_self_store, Json (Created example_created)) \<and>
   post_conversations_direct example_self_store 31 4 4
     (direct_from [example_entry_self, example_entry_self] example_self_store 31 4 4) \<and>
   snd (direct_from [example_entry_self, example_entry_self] example_self_store 31 4 4) =
     Json (Created \<lparr>c_id = 4, c_name = None, isGroup = Some False,
                    c_createdAt = 31, c_updatedAt = 31\<rparr>) \<and>
   direct_id (Created example_created) = 3"
proof -
  have w: "wf_store example_tie_store"
    by (simp add: wf_store_def primary_keys_def foreign_keys_def example_tie_store_def
        example_direct2_def example_defs)
  have i: "direct_id (Existing example_entry_direct) = 1"
      "direct_id (Existing example_entry_direct2) = 3"
      "direct_id (Created example_created) = 3"
    by (simp_all add: entry_defs example_entry_direct2_def example_direct2_def
        example_created_def example_defs)
  show ?thesis
    using w i direct_with_tie_runs direct_with_self_runs by simp
qed

text \<open>
  Claim C6, amended. Let \<open>A\<close> and \<open>B\<close> be two different stored users, in a store that
  satisfies the schema's keys and in which no two of \<open>A\<close>'s non-group conversations
  whose only other member is \<open>B\<close> carry the same \<open>updatedAt\<close> (in particular, when
  there is at most one). If a first call of the handler for (\<open>A\<close>, \<open>B\<close>) ends with
  store \<open>s1\<close> and response \<open>r1\<close>, then \<open>r1\<close> is a conversation, and every second call
  from \<open>s1\<close> returns an existing non-group conversation of \<open>A\<close> whose only other
  member is \<open>B\<close>, with the identifier the first call returned, and leaves the store as
  it is.
\<close>

theorem direct_conversation_dedup:
  assumes wf: "wf_store s" and ne: "A \<noteq> B"
      and Ain: "A \<in> set (map u_id (users s))" and Bin: "B \<in> set (map u_id (users s))"
      and inj: "inj_on c_updatedAt
                  {c \<in> set (user_conversations s A). direct_candidate s A B c}"
      and first: "post_conversations_direct s now A B (s1, r1)"
      and second: "post_conversations_direct s1 now' A B (s2, r2)"
  shows "\<exists>d1 e2. r1 = Json d1 \<and> r2 = Json (Existing e2) \<and>
                 c_id (conv e2) = direct_id d1 \<and> is_direct_with B e2 \<and> s2 = s1"
proof -
  from first obtain ex1 where a1: "getUserConversations s A ex1"
    and o1: "(s1, r1) = direct_from ex1 s now A B"
    by (auto simp: post_conversations_direct_def)
  from second obtain ex2 where a2: "getUserConversations s1 A ex2"
    and o2: "(s2, r2) = direct_from ex2 s1 now' A B"
    by (auto simp: post_conversations_direct_def)
  show ?thesis
  proof (cases "List.find (is_direct_with B) ex1")
    case (Some d1)
    with o1 have s1: "s1 = s" and r1: "r1 = Json (Existing d1)"
      by (simp_all add: direct_from_found)
    from find_direct_same[OF a1 a2[unfolded s1] inj Some]
    obtain d2 where d2: "List.find (is_direct_with B) ex2 = Some d2" "conv d2 = conv d1"
      by blast
    with o2 have "s2 = s1" "r2 = Json (Existing d2)"
      by (simp_all add: direct_from_found)
    moreover have "is_direct_with B d2" using d2(1) by (rule find_SomeD[THEN conjunct2])
    ultimately show ?thesis using r1 d2(2) by simp
  next
    case None
    from direct_from_created[OF None Ain Bin, of now] o1
    obtain c mA mB where
      s1: "s1 = s\<lparr>conversations := conversations s @ [c],
                conversationMembers := conversationMembers s @ [mA, mB]\<rparr>"
      and r1: "r1 = Json (Created c)"
      and c: "c_id c = fresh_id (map c_id (conversations s))" "isGroup c = Some False"
      and m: "cm_conversationId mA = c_id c" "cm_userId mA = A"
             "cm_conversationId mB = c_id c" "cm_userId mB = B"
      by auto
    note f = created_store_facts[OF wf ne Bin c(1) m, folded s1]
    have none: "\<forall>c'\<in>set (user_conversations s A). \<not> direct_candidate s A B c'"
      using find_direct_None[OF a1, of B] None by (simp add: filter_empty_conv)
    have old: "\<not> direct_candidate s1 A B c'" if "c' \<in> set (user_conversations s A)" for c'
    proof -
      have "c' \<in> set (conversations s)" using that by (simp add: set_user_conversations)
      then have "other_members s1 (c_id c') A = other_members s (c_id c') A" by (rule f(2))
      then show ?thesis using none that by (simp add: direct_candidate_def)
    qed
    have new: "direct_candidate s1 A B c"
      using f(3) c(2) by (simp add: direct_candidate_def)
    have entries: "\<forall>e\<in>set ex2. is_direct_with B e = direct_candidate s1 A B (conv e)"
      using a2 by (simp add: getUserConversations_def list_all_iff is_direct_with_entry)
    have convs: "conv ` set ex2 = insert c (set (user_conversations s A))"
      using getUserConversations_convs[OF a2] f(1) by simp
    then have "c \<in> conv ` set ex2" by simp
    then obtain e where "e \<in> set ex2" "conv e = c" by (auto simp: image_iff)
    then have "filter (is_direct_with B) ex2 \<noteq> []"
      using entries new by (auto simp: filter_empty_conv)
    then obtain d2 where d2: "List.find (is_direct_with B) ex2 = Some d2"
      by (cases "List.find (is_direct_with B) ex2") (auto simp: find_None_filter)
    then have in2: "d2 \<in> set ex2" and q: "is_direct_with B d2"
      by (auto dest: find_SomeD)
    have "conv d2 = c"
    proof (rule ccontr)
      assume "conv d2 \<noteq> c"
      with in2 convs have "conv d2 \<in> set (user_conversations s A)" by auto
      then have "\<not> direct_candidate s1 A B (conv d2)" by (rule old)
      with entries in2 q show False by blast
    qed
    moreover from d2 o2 have "s2 = s1" "r2 = Json (Existing d2)"
      by (simp_all add: direct_from_found)
    ultimately show ?thesis using r1 q by simp
  qed
qed

theorem direct_conversation_dedup_witness:
  "wf_store example_store \<and> (1::nat) \<noteq> 4 \<and>
   (1::nat) \<in> set (map u_id (users example_store)) \<and>
   (4::nat) \<in> set (map u_id (users example_store)) \<and>
   inj_on c_updatedAt
     {c \<in> set (user_conversations example_store 1). direct_candidate example_store 1 4 c} \<and>
   post_conversations_direct example_store 30 1 4
     (example_direct_store, Json (Created example_created)) \<and>
   post_conversations_direct example_direct_store 31 1 4
     (example_direct_store, Json (Existing example_entry_created)) \<and>
   c_id (conv example_entry_created) = direct_id (Created example_created) \<and>
   is_direct_with 4 example_entry_created"
proof -
  have ne: "(1::nat) \<noteq> 4" by simp
  have Ain: "(1::nat) \<in> set (map u_id (users example_store))"
    and Bin: "(4::nat) \<in> set (map u_id (users example_store))"
    by (simp_all add: example_defs)
  have "other_members example_store 1 1 = [example_user 2]"
    by (simp add: other_members_def inner_join_def example_defs)
  then have "{c \<in> set (user_conversations example_store 1). direct_candidate example_store 1 4 c} = {}"
    by (auto simp: example_user_conversations direct_candidate_def example_conv example_user_def
        example_group_def simp del: One_nat_def)
  then have inj: "inj_on c_updatedAt
     {c \<in> set (user_conversations example_store 1). direct_candidate example_store 1 4 c}"
    by (simp only: inj_on_empty)
  have 1: "direct_from [example_entry_direct, example_entry_group] example_store 30 1 4 =
      (example_direct_store, Json (Created example_created))"
    by (simp add: direct_from_def is_direct_with_def createConversation_def
        addConversationMember_def Let_def or_default_def fresh_id_def entry_defs
        example_direct_store_def example_created_def example_defs)
  have first: "post_conversations_direct example_store 30 1 4
     (example_direct_store, Json (Created example_created))"
    unfolding post_conversations_direct_def
    using example_answers(1) 1
    by (intro exI[of _ "[example_entry_direct, example_entry_group]"]) (simp del: One_nat_def)
  have 2: "direct_from [example_entry_created, example_entry_direct, example_entry_group]
      example_direct_store 31 1 4 = (example_direct_store, Json (Existing example_entry_created))"
    by (simp add: direct_from_def is_direct_with_def example_entry_created_def
        example_created_def example_user_def)
  have second: "post_conversations_direct example_direct_store 31 1 4
     (example_direct_store, Json (Existing example_entry_created))"
    unfolding post_conversations_direct_def
    using example_direct_answer 2
    by (intro exI[of _ "[example_entry_created, example_entry_direct, example_entry_group]"])
       (simp del: One_nat_def)
  from direct_conversation_dedup[OF wf_example_store ne Ain Bin inj first second]
  have "c_id (conv example_entry_created) = direct_id (Created example_created) \<and>
        is_direct_with 4 example_entry_created"
    by auto
  then show ?thesis
    using wf_example_store ne Ain Bin inj first second by blast
qed

end
